theory Spec2Isabelle
  imports Complex_Main "HOL-Library.Log_Nat"
begin

section \<open>ThirstIQ: the hydration planner and the chat handler of Dashboard.tsx\<close>

text \<open>
  The development embeds the logic of \<^verbatim>\<open>src/components/Dashboard.tsx\<close>:
  \<^verbatim>\<open>generateTasks\<close>, \<^verbatim>\<open>fetchWeather\<close>, \<^verbatim>\<open>calculateHydrationNeeds\<close>,
  \<^verbatim>\<open>handleTaskCompletion\<close> and \<^verbatim>\<open>handleSendMessage\<close>.

  Conventions of the embedding.
  \<^item> A JavaScript number that holds an integer (goal, intake, amounts, temperature,
    humidity) is an \<open>int\<close>, and sums of them are exact: this is the arithmetic of the code
    below \<open>2 ^ 53\<close>. A number that may be fractional is a \<open>rat\<close>. Where a result depends on
    the rounding to binary64, the rounding is written out (\<open>fl\<close> below): the progress
    percentage, the minute of a task and the number that \<^verbatim>\<open>parseInt\<close> returns.
  \<^item> A string that is typed or received is the list of its UTF-16 code units (\<open>jstring\<close>);
    \<open>js\<close> embeds a literal. The identifiers that the program gives to the tasks are
    strings of characters.
  \<^item> The React state of the component is a record; every handler takes the state and
    returns the next one. Each state updater is applied exactly once, in the order of the
    calls.
  \<^item> A \<^verbatim>\<open>Date\<close> is its local time value in milliseconds; the offset between local time
    and UTC is taken constant, so that the order of \<^verbatim>\<open>getTime()\<close> is the order of the
    local time values.
\<close>

subsection \<open>Numbers\<close>

text \<open>\<^verbatim>\<open>Math.round\<close>: the nearest integer, a tie going up. \<^verbatim>\<open>Math.floor\<close>.\<close>

definition Math_round :: "rat \<Rightarrow> int" where
  "Math_round x = \<lfloor>x + 1 / 2\<rfloor>"

definition Math_floor :: "rat \<Rightarrow> int" where
  "Math_floor x = \<lfloor>x\<rfloor>"

text \<open>\<^verbatim>\<open>ToIntegerOrInfinity\<close> of a finite number: truncation towards zero.\<close>

definition ToInteger :: "rat \<Rightarrow> int" where
  "ToInteger x = (if 0 \<le> x then \<lfloor>x\<rfloor> else \<lceil>x\<rceil>)"

subsection \<open>Binary64 rounding\<close>

text \<open>
  \<open>fl x\<close> is the binary64 number nearest to \<open>x\<close>, a tie going to the even significand:
  with \<open>2 ^ e \<le> \<bar>x\<bar> < 2 ^ (e + 1)\<close> the result is a multiple of \<open>2 ^ (e - 52)\<close>. The
  exponent range is not modelled (no overflow to infinity, no subnormal numbers): the
  quotients and products rounded here are far inside it.
\<close>

definition pow2 :: "int \<Rightarrow> rat" where
  "pow2 e = (if 0 \<le> e then 2 ^ nat e else 1 / 2 ^ nat (- e))"

definition ilog2 :: "rat \<Rightarrow> int" where
  "ilog2 x = (if 1 \<le> x then bitlen \<lfloor>x\<rfloor> - 1 else - bitlen (\<lceil>1 / x\<rceil> - 1))"

definition round_even :: "rat \<Rightarrow> int" where
  "round_even q =
     (let f = \<lfloor>q\<rfloor>; r = q - of_int f
      in if r < 1 / 2 then f else if 1 / 2 < r then f + 1 else if even f then f else f + 1)"

definition fl :: "rat \<Rightarrow> rat" where
  "fl x =
     (if x = 0 then 0
      else let u = pow2 (ilog2 \<bar>x\<bar> - 52)
           in sgn x * of_int (round_even (\<bar>x\<bar> / u)) * u)"

subsection \<open>Strings\<close>

text \<open>
  A string of the program is the list of its UTF-16 code units; the patterns of the chat
  handler have no \<^verbatim>\<open>u\<close> flag and work on code units. \<open>js\<close> is the string of a literal.
\<close>

type_synonym jstring = "nat list"

definition js :: "string \<Rightarrow> jstring" where
  "js s = map of_char s"

subsection \<open>Dates\<close>

text \<open>
  The time-value arithmetic of ECMA-262 (\<^verbatim>\<open>Day\<close>, \<^verbatim>\<open>HourFromTime\<close>, \<^verbatim>\<open>MakeTime\<close>,
  \<^verbatim>\<open>MakeDate\<close>) on a local time value, and the two setters that \<^verbatim>\<open>generateTasks\<close> calls.
\<close>

definition msPerSecond :: int where "msPerSecond = 1000"
definition msPerMinute :: int where "msPerMinute = 60000"
definition msPerHour :: int where "msPerHour = 3600000"
definition msPerDay :: int where "msPerDay = 86400000"

definition Day :: "int \<Rightarrow> int" where
  "Day t = t div msPerDay"

definition HourFromTime :: "int \<Rightarrow> int" where
  "HourFromTime t = (t div msPerHour) mod 24"

definition MinFromTime :: "int \<Rightarrow> int" where
  "MinFromTime t = (t div msPerMinute) mod 60"

definition SecFromTime :: "int \<Rightarrow> int" where
  "SecFromTime t = (t div msPerSecond) mod 60"

definition msFromTime :: "int \<Rightarrow> int" where
  "msFromTime t = t mod msPerSecond"

definition MakeTime :: "int \<Rightarrow> int \<Rightarrow> int \<Rightarrow> int \<Rightarrow> int" where
  "MakeTime h m s ms = h * msPerHour + m * msPerMinute + s * msPerSecond + ms"

definition MakeDate :: "int \<Rightarrow> int \<Rightarrow> int" where
  "MakeDate day tm = day * msPerDay + tm"

definition setHours :: "int \<Rightarrow> int \<Rightarrow> int" where
  "setHours h t = MakeDate (Day t) (MakeTime h (MinFromTime t) (SecFromTime t) (msFromTime t))"

definition setMinutes :: "rat \<Rightarrow> int \<Rightarrow> int" where
  "setMinutes m t =
     MakeDate (Day t) (MakeTime (HourFromTime t) (ToInteger m) (SecFromTime t) (msFromTime t))"

subsection \<open>Weather and the daily goal\<close>

record WeatherData =
  temp :: int
  humidity :: int
  description :: jstring

text \<open>
  \<^verbatim>\<open>calculateHydrationNeeds\<close> computes the goal and then stores it, replaces the task batch
  and appends a message; \<open>computeGoal\<close> is the number it computes (\<^verbatim>\<open>roundedIntake\<close>).
  \<^verbatim>\<open>baseIntake\<close> is an integer here, so \<^verbatim>\<open>Math.round\<close> is applied to an integer.
\<close>

definition computeGoal :: "WeatherData \<Rightarrow> int" where
  "computeGoal weatherData =
     (let baseIntake = 2000;
          baseIntake = (if temp weatherData > 25
                        then baseIntake + (temp weatherData - 25) * 50 else baseIntake);
          baseIntake = (if humidity weatherData > 60
                        then baseIntake + (humidity weatherData - 60) * 20 else baseIntake)
      in Math_round (of_int baseIntake))"

subsection \<open>Tasks\<close>

record WaterTask =
  task_id :: string
  time :: int
  amount :: int
  completed :: bool

definition digit_char :: "nat \<Rightarrow> char" where
  "digit_char d = ''0123456789'' ! d"

fun string_of_nat :: "nat \<Rightarrow> string" where
  "string_of_nat n =
     (if n < 10 then [digit_char n] else string_of_nat (n div 10) @ [digit_char (n mod 10)])"

declare string_of_nat.simps [simp del]

definition tasksCount :: nat where "tasksCount = 8"

text \<open>
  One iteration of the loop of \<^verbatim>\<open>generateTasks\<close>: the task of index \<open>i\<close>. \<open>now\<close> is
  \<^verbatim>\<open>new Date()\<close> and \<open>rnd i\<close> the value \<^verbatim>\<open>Math.random()\<close> returns in iteration \<open>i\<close>; the
  minute is set to the binary64 product \<^verbatim>\<open>Math.random() * 59\<close>, truncated by \<^verbatim>\<open>setMinutes\<close>.
\<close>

definition newTask :: "int \<Rightarrow> (nat \<Rightarrow> rat) \<Rightarrow> int \<Rightarrow> nat \<Rightarrow> WaterTask" where
  "newTask now rnd amountPerTask i =
     (let taskTime = now;
          taskTime = setHours (9 + Math_floor (of_nat i * (12 / of_nat tasksCount))) taskTime;
          taskTime = setMinutes (fl (rnd i * 59)) taskTime
      in \<lparr> task_id = ''task-'' @ string_of_nat i, time = taskTime,
           amount = amountPerTask, completed = False \<rparr>)"

text \<open>
  The array \<^verbatim>\<open>tasks\<close> when the loop ends: the tasks of index \<open>0, \<dots>, tasksCount - 1\<close> in
  the order they were pushed.
\<close>

definition pushedTasks :: "int \<Rightarrow> (nat \<Rightarrow> rat) \<Rightarrow> int \<Rightarrow> WaterTask list" where
  "pushedTasks now rnd dailyGoal =
     (let amountPerTask = Math_round (of_int dailyGoal / of_nat tasksCount)
      in map (newTask now rnd amountPerTask) [0 ..< tasksCount])"

text \<open>
  The result is this array sorted by time with the comparator
  \<^verbatim>\<open>a.time.getTime() - b.time.getTime()\<close> (\<^verbatim>\<open>Array.prototype.sort\<close> is stable).
\<close>

definition generateTasks :: "int \<Rightarrow> (nat \<Rightarrow> rat) \<Rightarrow> int \<Rightarrow> WaterTask list" where
  "generateTasks now rnd dailyGoal = sort_key time (pushedTasks now rnd dailyGoal)"

subsection \<open>The numbers of the progress computation\<close>

text \<open>
  The numbers of the progress computation \<^verbatim>\<open>((waterIntake + amount) / dailyGoal) * 100\<close>:
  a division by zero gives an infinity or \<^verbatim>\<open>NaN\<close>.
\<close>

datatype number = Finite rat | Infinity | NegInfinity | NaN

definition number_div :: "int \<Rightarrow> int \<Rightarrow> number" where
  "number_div x y =
     (if y = 0 then (if 0 < x then Infinity else if x < 0 then NegInfinity else NaN)
      else Finite (fl (of_int x / of_int y)))"

fun times100 :: "number \<Rightarrow> number" where
  "times100 (Finite a) = Finite (fl (a * 100))"
| "times100 Infinity = Infinity"
| "times100 NegInfinity = NegInfinity"
| "times100 NaN = NaN"

fun ge100 :: "number \<Rightarrow> bool" where
  "ge100 (Finite a) = (100 \<le> a)"
| "ge100 Infinity = True"
| "ge100 NegInfinity = False"
| "ge100 NaN = False"

fun Math_round_number :: "number \<Rightarrow> number" where
  "Math_round_number (Finite a) = Finite (of_int (Math_round a))"
| "Math_round_number Infinity = Infinity"
| "Math_round_number NegInfinity = NegInfinity"
| "Math_round_number NaN = NaN"

subsection \<open>Strings and the patterns of the chat handler\<close>

text \<open>
  \<^verbatim>\<open>\s\<close> and \<^verbatim>\<open>trim\<close>: the white space and line terminators of ECMA-262 (tab, line feed,
  vertical tab, form feed, carriage return, space, no-break space, U+1680, U+2000 to
  U+200A, U+2028, U+2029, U+202F, U+205F, U+3000, U+FEFF). \<^verbatim>\<open>\d\<close> is \<open>0\<close> to \<open>9\<close> and
  \<^verbatim>\<open>[a-zA-Z]\<close> the 52 letters it lists.
\<close>

definition is_space :: "nat \<Rightarrow> bool" where
  "is_space c =
     (c \<in> {0x09, 0x0A, 0x0B, 0x0C, 0x0D, 0x20, 0xA0, 0x1680, 0x2028, 0x2029, 0x202F, 0x205F,
            0x3000, 0xFEFF}
      \<or> (0x2000 \<le> c \<and> c \<le> 0x200A))"

definition is_digit :: "nat \<Rightarrow> bool" where
  "is_digit c = (of_char CHR ''0'' \<le> c \<and> c \<le> of_char CHR ''9'')"

definition is_letter :: "nat \<Rightarrow> bool" where
  "is_letter c =
     ((of_char CHR ''a'' \<le> c \<and> c \<le> of_char CHR ''z'')
      \<or> (of_char CHR ''A'' \<le> c \<and> c \<le> of_char CHR ''Z''))"

definition trim :: "jstring \<Rightarrow> jstring" where
  "trim s = rev (dropWhile is_space (rev (dropWhile is_space s)))"

text \<open>\<^verbatim>\<open>/^[a-zA-Z\s]+$/\<close>: the whole string, at least one character.\<close>

definition matches_location :: "jstring \<Rightarrow> bool" where
  "matches_location s = (s \<noteq> [] \<and> list_all (\<lambda>c. is_letter c \<or> is_space c) s)"

text \<open>
  \<^verbatim>\<open>/\d+\s*(ml|ML|mL)/\<close>. \<open>volume_at s\<close>: the pattern matches at the start of \<open>s\<close>. The three
  character classes are disjoint, so the greedy match decides it. \<open>matches_volume s\<close>:
  the pattern matches somewhere in \<open>s\<close>.
\<close>

definition unit_prefix :: "jstring \<Rightarrow> bool" where
  "unit_prefix s = (take 2 s = js ''ml'' \<or> take 2 s = js ''ML'' \<or> take 2 s = js ''mL'')"

definition volume_at :: "jstring \<Rightarrow> bool" where
  "volume_at s =
     (takeWhile is_digit s \<noteq> [] \<and> unit_prefix (dropWhile is_space (dropWhile is_digit s)))"

fun matches_volume :: "jstring \<Rightarrow> bool" where
  "matches_volume [] = False"
| "matches_volume (c # cs) = (volume_at (c # cs) \<or> matches_volume cs)"

text \<open>\<^verbatim>\<open>userMessage.match(/\d+/)\<close>: the leftmost digit run, \<open>None\<close> for \<^verbatim>\<open>null\<close>.\<close>

definition match_digits :: "jstring \<Rightarrow> jstring option" where
  "match_digits s =
     (let r = dropWhile (\<lambda>c. \<not> is_digit c) s
      in if r = [] then None else Some (takeWhile is_digit r))"

text \<open>
  \<^verbatim>\<open>parseInt\<close> on a string that starts with a decimal digit, the only argument it is given
  here. \<open>digits_value s\<close> is the integer that the leading digits denote. \<^verbatim>\<open>parseInt\<close> returns
  the Number value of this integer, that is the integer rounded to binary64: the integer
  itself below \<open>2 ^ 53\<close>. (For a run of more than 20 digits an engine may replace the
  digits after the 20th by zeros before rounding, and from \<open>2 ^ 1024\<close> on the result is
  \<^verbatim>\<open>Infinity\<close>; the statements below about the amount are for runs of at most 20 digits.)
\<close>

definition digit_value :: "nat \<Rightarrow> int" where
  "digit_value c = int c - int (of_char CHR ''0'')"

definition digits_value :: "jstring \<Rightarrow> int" where
  "digits_value s = foldl (\<lambda>n c. 10 * n + digit_value c) 0 (takeWhile is_digit s)"

definition parseInt :: "jstring \<Rightarrow> int" where
  "parseInt s = \<lfloor>fl (of_int (digits_value s))\<rfloor>"

text \<open>\<^verbatim>\<open>parseInt(userMessage.match(/\d+/)?.[0] || '0')\<close>\<close>

definition logged_amount :: "jstring \<Rightarrow> int" where
  "logged_amount userMessage =
     parseInt (case match_digits userMessage of
                 None \<Rightarrow> js ''0''
               | Some d \<Rightarrow> if d = [] then js ''0'' else d)"

text \<open>
  The branch that \<^verbatim>\<open>handleSendMessage\<close> takes on the trimmed message: the first pattern,
  else the second, else neither.
\<close>

datatype intent = Location jstring | VolumeLog int | Unrecognized

definition classify :: "jstring \<Rightarrow> intent" where
  "classify userMessage =
     (if matches_location userMessage then Location userMessage
      else if matches_volume userMessage then VolumeLog (logged_amount userMessage)
      else Unrecognized)"

subsection \<open>The state of the component\<close>

text \<open>
  A chat message is its author and its content (the identifier and the timestamp come
  from the clock and are left out). The assistant's texts are the templates of the source
  with their interpolated values.
\<close>

datatype bot_text =
    Greeting
  | AskLocation
  | WeatherReport jstring int int jstring
  | Recommendation int
  | ServiceTrouble
  | LocationNotFound
  | WeatherTrouble
  | TryAnotherLocation
  | GoalReached int
  | IntakeLogged int int number
  | Help

datatype message = UserMessage jstring | BotMessage bot_text

text \<open>The notifications of \<^verbatim>\<open>react-hot-toast\<close>, in the order they are raised.\<close>

datatype toast =
    InvalidApiKey
  | LocationNotFoundToast
  | CouldNotFetch
  | TaskDone int

record state =
  messages :: "message list"
  input :: jstring
  isLoading :: bool
  weather :: "WeatherData option"
  waterIntake :: int
  dailyGoal :: int
  waterTasks :: "WaterTask list"
  currentLocation :: jstring
  toasts :: "toast list"

text \<open>The state after mounting: the initial values and the two greetings of the effect.\<close>

definition initial :: state where
  "initial = \<lparr> messages = [BotMessage Greeting, BotMessage AskLocation], input = [],
     isLoading = False, weather = None, waterIntake = 0, dailyGoal = 2000, waterTasks = [],
     currentLocation = [], toasts = [] \<rparr>"

definition addBotMessage :: "bot_text \<Rightarrow> state \<Rightarrow> state" where
  "addBotMessage content s = s\<lparr>messages := messages s @ [BotMessage content]\<rparr>"

definition raise_toast :: "toast \<Rightarrow> state \<Rightarrow> state" where
  "raise_toast t s = s\<lparr>toasts := toasts s @ [t]\<rparr>"

subsection \<open>Fetching the weather\<close>

text \<open>
  What the surroundings give to one submission: the clock, the values of
  \<^verbatim>\<open>Math.random()\<close> and the outcome of \<^verbatim>\<open>axios.get\<close>: a response, an axios error with the
  status of its response if it has one, or another exception (a response without the
  fields that are read).
\<close>

record api_response =
  main_temp :: rat
  main_humidity :: int
  weather_description :: jstring

datatype fetch_result = Response api_response | AxiosError "nat option" | OtherError

record world =
  clock :: int
  randoms :: "nat \<Rightarrow> rat"
  reply :: fetch_result

definition calculateHydrationNeeds :: "world \<Rightarrow> WeatherData \<Rightarrow> state \<Rightarrow> state" where
  "calculateHydrationNeeds w weatherData s =
     (let roundedIntake = computeGoal weatherData;
          s = s\<lparr>dailyGoal := roundedIntake\<rparr>;
          s = s\<lparr>waterTasks := generateTasks (clock w) (randoms w) roundedIntake\<rparr>
      in addBotMessage (Recommendation roundedIntake) s)"

definition fetchWeather :: "world \<Rightarrow> jstring \<Rightarrow> state \<Rightarrow> WeatherData option \<times> state" where
  "fetchWeather w location s =
     (let s = s\<lparr>isLoading := True\<rparr> in
      case reply w of
        Response r \<Rightarrow>
          (let weatherData = \<lparr> temp = Math_round (main_temp r), humidity = main_humidity r,
                                description = weather_description r \<rparr>;
               s = s\<lparr>weather := Some weatherData\<rparr>;
               s = s\<lparr>currentLocation := location\<rparr>;
               s = calculateHydrationNeeds w weatherData s;
               s = addBotMessage (WeatherReport location (temp weatherData)
                     (humidity weatherData) (description weatherData)) s
           in (Some weatherData, s\<lparr>isLoading := False\<rparr>))
      | AxiosError status \<Rightarrow>
          (let s = (if status = Some 401
                    then addBotMessage ServiceTrouble (raise_toast InvalidApiKey s)
                    else if status = Some 404
                    then addBotMessage LocationNotFound (raise_toast LocationNotFoundToast s)
                    else addBotMessage WeatherTrouble (raise_toast CouldNotFetch s))
           in (None, s\<lparr>isLoading := False\<rparr>))
      | OtherError \<Rightarrow> (None, s\<lparr>isLoading := False\<rparr>))"

subsection \<open>Completing a task\<close>

text \<open>
  The callback that \<^verbatim>\<open>handleTaskCompletion\<close> maps over the batch: it returns the new task
  and, for a task of this identifier that was not completed, adds its amount to the intake
  and raises a notification. \<open>markTasks\<close> returns the mapped batch, the sum of the amounts
  added and the notifications.
\<close>

fun markTasks :: "string \<Rightarrow> WaterTask list \<Rightarrow> WaterTask list \<times> int \<times> toast list" where
  "markTasks taskId [] = ([], 0, [])"
| "markTasks taskId (task # tasks) =
     (let (tasks', delta, notes) = markTasks taskId tasks in
      if task_id task = taskId then
        (if \<not> completed task
         then (task\<lparr>completed := True\<rparr> # tasks', amount task + delta,
               TaskDone (amount task) # notes)
         else (task\<lparr>completed := True\<rparr> # tasks', delta, notes))
      else (task # tasks', delta, notes))"

definition handleTaskCompletion :: "string \<Rightarrow> state \<Rightarrow> state" where
  "handleTaskCompletion taskId s =
     (let (tasks', delta, notes) = markTasks taskId (waterTasks s)
      in s\<lparr>waterTasks := tasks', waterIntake := waterIntake s + delta,
           toasts := toasts s @ notes\<rparr>)"

subsection \<open>Submitting a chat line\<close>

definition handleSendMessage :: "world \<Rightarrow> state \<Rightarrow> state" where
  "handleSendMessage w s =
     (if trim (input s) = [] \<or> isLoading s then s
      else
        let userMessage = trim (input s);
            s = s\<lparr>input := []\<rparr>;
            s = s\<lparr>messages := messages s @ [UserMessage userMessage]\<rparr>
        in if matches_location userMessage then
             (case fetchWeather w userMessage s of
                (None, s) \<Rightarrow> addBotMessage TryAnotherLocation s
              | (Some weatherData, s) \<Rightarrow> s)
           else if matches_volume userMessage then
             (let amount = logged_amount userMessage;
                  progress = times100 (number_div (waterIntake s + amount) (dailyGoal s));
                  s' = s\<lparr>waterIntake := waterIntake s + amount\<rparr>
              in if ge100 progress
                 then addBotMessage (GoalReached (dailyGoal s)) s'
                 else addBotMessage (IntakeLogged amount (waterIntake s + amount)
                        (Math_round_number progress)) s')
           else addBotMessage Help s)"

subsection \<open>Sessions\<close>

text \<open>
  The events of a session: typing into the input field, submitting the form and pressing
  the button of a task. A submission runs to its end, the fetch included, before the next
  event.
\<close>

datatype event = Typed jstring | Submitted world | Pressed string

fun step :: "event \<Rightarrow> state \<Rightarrow> state" where
  "step (Typed text) s = s\<lparr>input := text\<rparr>"
| "step (Submitted w) s = handleSendMessage w s"
| "step (Pressed taskId) s = handleTaskCompletion taskId s"

fun run :: "event list \<Rightarrow> state \<Rightarrow> state" where
  "run [] s = s"
| "run (e # es) s = run es (step e s)"

text \<open>The invariant of a session that the intake relies on: no task has a negative amount.\<close>

definition amounts_nonneg :: "state \<Rightarrow> bool" where
  "amounts_nonneg s = list_all (\<lambda>t. 0 \<le> amount t) (waterTasks s)"

subsection \<open>Sample data\<close>

text \<open>A batch with a completed and an open task, for the worked examples.\<close>

definition sample_batch :: "WaterTask list" where
  "sample_batch =
     [\<lparr>task_id = ''task-0'', time = 0, amount = 250, completed = True\<rparr>,
      \<lparr>task_id = ''task-1'', time = 1, amount = 250, completed = False\<rparr>]"

text \<open>Surroundings with a fixed clock and random value and a given outcome of the fetch.\<close>

definition sample_world :: "fetch_result \<Rightarrow> world" where
  "sample_world r = \<lparr>clock = 0, randoms = (\<lambda>_. 1 / 2), reply = r\<rparr>"

definition sample_response :: api_response where
  "sample_response = \<lparr>main_temp = 30, main_humidity = 70, weather_description = js ''clear sky''\<rparr>"

section \<open>The daily goal\<close>

lemma Math_round_of_int: "Math_round (of_int n) = n"
  unfolding Math_round_def by (simp add: floor_eq_iff)

lemma computeGoal_formula:
  "computeGoal w = 2000 + (if temp w > 25 then (temp w - 25) * 50 else 0)
                        + (if humidity w > 60 then (humidity w - 60) * 20 else 0)"
  by (simp add: computeGoal_def Math_round_of_int Let_def)

lemma computeGoal_ge: "2000 \<le> computeGoal w"
  unfolding computeGoal_formula by simp

text \<open>
  C1. For every observation with temperature \<open>t\<close> and humidity \<open>h\<close> the goal is 2000,
  plus \<open>(t - 25) * 50\<close> if \<open>t > 25\<close>, plus \<open>(h - 60) * 20\<close> if \<open>h > 60\<close>; it is 2000 at
  (25, 60), 2500 at (35, 60) and 2400 at (25, 80).
\<close>

theorem computeGoal_value:
  "computeGoal \<lparr>temp = t, humidity = h, description = d\<rparr>
     = 2000 + (if t > 25 then (t - 25) * 50 else 0) + (if h > 60 then (h - 60) * 20 else 0)
   \<and> computeGoal \<lparr>temp = 25, humidity = 60, description = d\<rparr> = 2000
   \<and> computeGoal \<lparr>temp = 35, humidity = 60, description = d\<rparr> = 2500
   \<and> computeGoal \<lparr>temp = 25, humidity = 80, description = d\<rparr> = 2400"
  by (simp add: computeGoal_formula)

section \<open>Binary64 rounding\<close>

subsection \<open>Powers of two and the exponent\<close>

lemma pow2_powi: "pow2 e = 2 powi e"
  by (simp add: pow2_def power_int_def power_inverse inverse_eq_divide power_one_over)

lemma pow2_pos: "0 < pow2 e"
  by (simp add: pow2_powi)

lemma pow2_add: "pow2 (a + b) = pow2 a * pow2 b"
  by (simp add: pow2_powi power_int_add)

lemma pow2_mono: "a \<le> b \<Longrightarrow> pow2 a \<le> pow2 b"
  by (simp add: pow2_powi power_int_increasing)

lemma pow2_nat: "0 \<le> e \<Longrightarrow> pow2 e = 2 ^ nat e"
  by (simp add: pow2_def)

lemma pow2_neg: "0 \<le> e \<Longrightarrow> pow2 (- e) = 1 / 2 ^ nat e"
  by (cases "e = 0") (simp_all add: pow2_def)

text \<open>\<open>ilog2 y\<close> is the exponent of \<open>y\<close>: \<open>2 ^ ilog2 y \<le> y < 2 ^ (ilog2 y + 1)\<close>.\<close>

lemma ilog2_bracket_ge1:
  assumes "1 \<le> y"
  shows "pow2 (ilog2 y) \<le> y" and "y < pow2 (ilog2 y + 1)"
proof -
  define n where "n = \<lfloor>y\<rfloor>"
  have n: "0 < n" using assms by (simp add: n_def)
  have b: "1 \<le> bitlen n" using n by (simp add: bitlen_alt_def)
  have e: "ilog2 y = bitlen n - 1" using assms by (simp add: ilog2_def n_def)
  have lo: "2 ^ nat (bitlen n - 1) \<le> n" and hi: "n < 2 ^ nat (bitlen n)"
    using bitlen_bounds [OF n] by simp_all
  have "pow2 (ilog2 y) = of_int (2 ^ nat (bitlen n - 1))"
    using b by (simp add: e pow2_nat)
  also have "\<dots> \<le> of_int n" using lo by (simp only: of_int_le_iff)
  also have "\<dots> \<le> y" by (simp add: n_def)
  finally show "pow2 (ilog2 y) \<le> y" .
  have "n + 1 \<le> 2 ^ nat (bitlen n)" using hi by simp
  then have "(of_int (n + 1) :: rat) \<le> of_int (2 ^ nat (bitlen n))"
    by (simp only: of_int_le_iff)
  moreover have "y < of_int (n + 1)"
    using floor_correct [of y] by (simp add: n_def)
  moreover have "pow2 (ilog2 y + 1) = of_int (2 ^ nat (bitlen n))"
    using b by (simp add: e pow2_nat)
  ultimately show "y < pow2 (ilog2 y + 1)" by simp
qed

lemma ilog2_bracket_lt1:
  assumes "0 < y" "y < 1"
  shows "pow2 (ilog2 y) \<le> y" and "y < pow2 (ilog2 y + 1)"
proof -
  define z where "z = 1 / y"
  define n where "n = \<lceil>z\<rceil> - 1"
  have z: "1 < z" using assms by (simp add: z_def)
  then have "2 \<le> \<lceil>z\<rceil>" by (simp add: le_ceiling_iff)
  then have n: "0 < n" by (simp add: n_def)
  have b: "1 \<le> bitlen n" using n by (simp add: bitlen_alt_def)
  have e: "ilog2 y = - bitlen n" using assms by (simp add: ilog2_def n_def z_def)
  have lo: "2 ^ nat (bitlen n - 1) \<le> n" and hi: "n < 2 ^ nat (bitlen n)"
    using bitlen_bounds [OF n] by simp_all
  have nz: "of_int n < z" "z \<le> of_int n + 1"
    using ceiling_correct [of z] by (simp_all add: n_def)
  have "n + 1 \<le> 2 ^ nat (bitlen n)" using hi by simp
  then have "(of_int (n + 1) :: rat) \<le> of_int (2 ^ nat (bitlen n))"
    by (simp only: of_int_le_iff)
  then have "(of_int n + 1 :: rat) \<le> 2 ^ nat (bitlen n)" by simp
  then have "z \<le> 2 ^ nat (bitlen n)" using nz by linarith
  then have "1 / 2 ^ nat (bitlen n) \<le> y"
    using assms by (simp add: z_def field_simps)
  then show "pow2 (ilog2 y) \<le> y"
    using b by (simp add: e pow2_neg)
  have "(of_int (2 ^ nat (bitlen n - 1)) :: rat) \<le> of_int n"
    using lo by (simp only: of_int_le_iff)
  then have "(2 :: rat) ^ nat (bitlen n - 1) \<le> of_int n" by simp
  then have "2 ^ nat (bitlen n - 1) < z" using nz by linarith
  then have y: "y < 1 / 2 ^ nat (bitlen n - 1)"
    using assms by (simp add: z_def field_simps)
  have "pow2 (ilog2 y + 1) = pow2 (- (bitlen n - 1))" by (simp add: e)
  also have "\<dots> = 1 / 2 ^ nat (bitlen n - 1)"
    using b by (intro pow2_neg) simp
  finally show "y < pow2 (ilog2 y + 1)" using y by simp
qed

lemma ilog2_bracket:
  assumes "0 < y"
  shows "pow2 (ilog2 y) \<le> y" and "y < pow2 (ilog2 y + 1)"
  using assms ilog2_bracket_ge1 [of y] ilog2_bracket_lt1 [of y]
  by (cases "1 \<le> y"; simp)+

lemma ilog2_less:
  assumes "0 < y" "y < pow2 k"
  shows "ilog2 y < k"
proof (rule ccontr)
  assume "\<not> ilog2 y < k"
  then have "pow2 k \<le> pow2 (ilog2 y)" by (intro pow2_mono) simp
  then show False using ilog2_bracket(1) [OF assms(1)] assms(2) by simp
qed

lemma ilog2_ge:
  assumes "pow2 k \<le> y"
  shows "k \<le> ilog2 y"
proof (rule ccontr)
  assume "\<not> k \<le> ilog2 y"
  then have "pow2 (ilog2 y + 1) \<le> pow2 k" by (intro pow2_mono) simp
  moreover have "0 < y" using assms pow2_pos [of k] by simp
  ultimately show False using ilog2_bracket(2) [of y] assms by simp
qed

subsection \<open>Rounding to an integer, ties to even\<close>

lemma round_even_cases:
  obtains "round_even q = \<lfloor>q\<rfloor>" "q - of_int \<lfloor>q\<rfloor> \<le> 1 / 2"
  | "round_even q = \<lfloor>q\<rfloor> + 1" "1 / 2 \<le> q - of_int \<lfloor>q\<rfloor>"
  by (cases "q - of_int \<lfloor>q\<rfloor> < 1 / 2"; cases "1 / 2 < q - of_int \<lfloor>q\<rfloor>"; cases "even \<lfloor>q\<rfloor>")
    (simp_all add: round_even_def Let_def)


lemma round_even_ge: "of_int m \<le> q \<Longrightarrow> m \<le> round_even q"
proof -
  assume "of_int m \<le> q"
  then have "m \<le> \<lfloor>q\<rfloor>" by (simp add: le_floor_iff)
  then show ?thesis by (cases q rule: round_even_cases) simp_all
qed

lemma round_even_le: "q \<le> of_int m \<Longrightarrow> round_even q \<le> m"
proof -
  assume a: "q \<le> of_int m"
  show ?thesis
  proof (cases "q = of_int m")
    case True
    then show ?thesis by (simp add: round_even_def Let_def)
  next
    case False
    then have "q < of_int m" using a by simp
    then have "\<lfloor>q\<rfloor> < m" by (simp add: floor_less_iff)
    then show ?thesis by (cases q rule: round_even_cases) simp_all
  qed
qed

subsection \<open>Rounding to binary64\<close>

lemma fl_zero: "fl 0 = 0"
  by (simp add: fl_def)

lemma fl_pos:
  assumes "0 < y"
  shows "fl y = of_int (round_even (y / pow2 (ilog2 y - 52))) * pow2 (ilog2 y - 52)"
  using assms by (simp add: fl_def Let_def)




text \<open>A multiple of the unit in the last place below (above) \<open>y\<close> is below (above) \<open>fl y\<close>.\<close>

lemma fl_ge_multiple:
  assumes "0 < y" "of_int m * pow2 (ilog2 y - 52) \<le> y"
  shows "of_int m * pow2 (ilog2 y - 52) \<le> fl y"
proof -
  have u: "0 < pow2 (ilog2 y - 52)" by (rule pow2_pos)
  then have "of_int m \<le> y / pow2 (ilog2 y - 52)"
    using assms(2) by (simp add: pos_le_divide_eq)
  then have "m \<le> round_even (y / pow2 (ilog2 y - 52))" by (rule round_even_ge)
  then have "(of_int m :: rat) \<le> of_int (round_even (y / pow2 (ilog2 y - 52)))"
    by (simp only: of_int_le_iff)
  then show ?thesis
    unfolding fl_pos [OF assms(1)] using u by (intro mult_right_mono) simp_all
qed

lemma fl_le_multiple:
  assumes "0 < y" "y \<le> of_int m * pow2 (ilog2 y - 52)"
  shows "fl y \<le> of_int m * pow2 (ilog2 y - 52)"
proof -
  have u: "0 < pow2 (ilog2 y - 52)" by (rule pow2_pos)
  then have "y / pow2 (ilog2 y - 52) \<le> of_int m"
    using assms(2) by (simp add: pos_divide_le_eq)
  then have "round_even (y / pow2 (ilog2 y - 52)) \<le> m" by (rule round_even_le)
  then have "(of_int (round_even (y / pow2 (ilog2 y - 52))) :: rat) \<le> of_int m"
    by (simp only: of_int_le_iff)
  then show ?thesis
    unfolding fl_pos [OF assms(1)] using u by (intro mult_right_mono) simp_all
qed

lemma pow2_multiple:
  assumes "j \<le> k"
  shows "pow2 k = of_int (2 ^ nat (k - j)) * pow2 j"
proof -
  have "pow2 k = pow2 ((k - j) + j)" by simp
  also have "\<dots> = pow2 (k - j) * pow2 j" by (rule pow2_add)
  also have "pow2 (k - j) = of_int (2 ^ nat (k - j))"
    using assms by (simp add: pow2_nat)
  finally show ?thesis .
qed

lemma fl_ge_pow2:
  assumes "pow2 k \<le> y"
  shows "pow2 k \<le> fl y"
proof -
  have y: "0 < y" using assms pow2_pos [of k] by simp
  have e: "k \<le> ilog2 y" using assms by (rule ilog2_ge)
  have m: "of_int (2 ^ 52) * pow2 (ilog2 y - 52) = pow2 (ilog2 y)"
    using pow2_multiple [of "ilog2 y - 52" "ilog2 y"] by simp
  have "of_int (2 ^ 52) * pow2 (ilog2 y - 52) \<le> fl y"
  proof (rule fl_ge_multiple [OF y])
    show "of_int (2 ^ 52) * pow2 (ilog2 y - 52) \<le> y"
      unfolding m by (rule ilog2_bracket(1) [OF y])
  qed
  then have "pow2 (ilog2 y) \<le> fl y" unfolding m .
  moreover have "pow2 k \<le> pow2 (ilog2 y)" using e by (rule pow2_mono)
  ultimately show ?thesis by simp
qed




text \<open>Below \<open>2 ^ 53\<close> every integer is a binary64 number: rounding respects it and keeps it.\<close>

lemma pow2_inverse_multiple:
  assumes "j \<le> 0"
  shows "of_int (m * 2 ^ nat (- j)) * pow2 j = of_int m"
proof -
  have "pow2 j = pow2 (- (- j))" by simp
  also have "\<dots> = 1 / 2 ^ nat (- j)"
    using assms by (intro pow2_neg) simp
  finally show ?thesis by simp
qed

lemma fl_ge_int:
  assumes "0 < y" "y < pow2 53" "of_int m \<le> y"
  shows "of_int m \<le> fl y"
proof -
  have "ilog2 y - 52 \<le> 0" using ilog2_less [OF assms(1,2)] by simp
  then have m: "of_int (m * 2 ^ nat (- (ilog2 y - 52))) * pow2 (ilog2 y - 52) = of_int m"
    by (rule pow2_inverse_multiple)
  have "of_int (m * 2 ^ nat (- (ilog2 y - 52))) * pow2 (ilog2 y - 52) \<le> fl y"
  proof (rule fl_ge_multiple [OF assms(1)])
    show "of_int (m * 2 ^ nat (- (ilog2 y - 52))) * pow2 (ilog2 y - 52) \<le> y"
      unfolding m by (rule assms(3))
  qed
  then show ?thesis unfolding m .
qed

lemma fl_le_int:
  assumes "0 < y" "y < pow2 53" "y \<le> of_int m"
  shows "fl y \<le> of_int m"
proof -
  have "ilog2 y - 52 \<le> 0" using ilog2_less [OF assms(1,2)] by simp
  then have m: "of_int (m * 2 ^ nat (- (ilog2 y - 52))) * pow2 (ilog2 y - 52) = of_int m"
    by (rule pow2_inverse_multiple)
  have "fl y \<le> of_int (m * 2 ^ nat (- (ilog2 y - 52))) * pow2 (ilog2 y - 52)"
  proof (rule fl_le_multiple [OF assms(1)])
    show "y \<le> of_int (m * 2 ^ nat (- (ilog2 y - 52))) * pow2 (ilog2 y - 52)"
      unfolding m by (rule assms(3))
  qed
  then show ?thesis unfolding m .
qed

lemma fl_int_exact:
  assumes "0 \<le> n" "n < 2 ^ 53"
  shows "fl (of_int n) = of_int n"
proof (cases "n = 0")
  case True
  then show ?thesis by (simp add: fl_zero)
next
  case False
  then have p: "(0 :: rat) < of_int n" using assms(1) by simp
  have "(of_int n :: rat) < of_int (2 ^ 53)"
    using assms(2) by (simp only: of_int_less_iff)
  then have b: "(of_int n :: rat) < pow2 53" by (simp add: pow2_def)
  have "of_int n \<le> fl (of_int n)" by (rule fl_ge_int [OF p b]) simp
  moreover have "fl (of_int n) \<le> of_int n" by (rule fl_le_int [OF p b]) simp
  ultimately show ?thesis by simp
qed

lemma fl_nonneg:
  assumes "0 \<le> y"
  shows "0 \<le> fl y"
proof (cases "y = 0")
  case True
  then show ?thesis by (simp add: fl_zero)
next
  case False
  then have y: "0 < y" using assms by simp
  have "pow2 (ilog2 y) \<le> fl y"
    using ilog2_bracket(1) [OF y] by (rule fl_ge_pow2)
  then show ?thesis using pow2_pos [of "ilog2 y"] by simp
qed

section \<open>The schedule\<close>

subsection \<open>Amounts\<close>

lemma Math_round_div8: "Math_round (of_int g / of_nat tasksCount) = (g + 4) div 8"
proof -
  have "(of_int g :: rat) / of_nat tasksCount + 1 / 2 = of_int (g + 4) / of_int 8"
    by (simp add: tasksCount_def field_simps)
  then show ?thesis
    unfolding Math_round_def by (simp only: floor_divide_of_int_eq)
qed

lemma newTask_sel:
  "completed (newTask now rnd a i) = False"
  "amount (newTask now rnd a i) = a"
  "task_id (newTask now rnd a i) = ''task-'' @ string_of_nat i"
  "time (newTask now rnd a i) =
     setMinutes (fl (rnd i * 59))
       (setHours (9 + Math_floor (of_nat i * (12 / of_nat tasksCount))) now)"
  by (simp_all add: newTask_def Let_def)

lemma map_const_replicate:
  "\<forall>x\<in>set xs. f x = a \<Longrightarrow> map f xs = replicate (length xs) a"
  by (induction xs) simp_all

lemma generateTasks_set:
  "set (generateTasks now rnd g)
   = newTask now rnd (Math_round (of_int g / of_nat tasksCount)) ` {0 ..< tasksCount}"
  by (simp add: generateTasks_def pushedTasks_def Let_def)

lemma generateTasks_length: "length (generateTasks now rnd g) = 8"
  by (simp add: generateTasks_def pushedTasks_def Let_def tasksCount_def)

lemma generateTasks_completed: "map completed (generateTasks now rnd g) = replicate 8 False"
proof -
  have "map completed (generateTasks now rnd g)
        = replicate (length (generateTasks now rnd g)) False"
    by (rule map_const_replicate) (simp add: generateTasks_set newTask_sel)
  then show ?thesis by (simp only: generateTasks_length)
qed

lemma generateTasks_amount:
  "map amount (generateTasks now rnd g) = replicate 8 (Math_round (of_int g / 8))"
proof -
  have "map amount (generateTasks now rnd g)
        = replicate (length (generateTasks now rnd g)) (Math_round (of_int g / of_nat tasksCount))"
    by (rule map_const_replicate) (simp add: generateTasks_set newTask_sel)
  then show ?thesis by (simp add: generateTasks_length tasksCount_def)
qed

lemma generateTasks_sorted: "sorted (map time (generateTasks now rnd g))"
  by (simp add: generateTasks_def sorted_sort_key)

lemma generateTasks_sum:
  "sum_list (map amount (generateTasks now rnd g)) = 8 * ((g + 4) div 8)"
  using Math_round_div8 [of g]
  by (simp add: generateTasks_amount sum_list_replicate tasksCount_def)

text \<open>
  C2. For every goal \<open>g\<close>, every clock and every choice of random values, the batch has
  exactly 8 tasks, none completed, each of amount \<open>round (g / 8)\<close>, in ascending order of
  time, and the amounts sum to a value between \<open>g - 8\<close> and \<open>g + 8\<close>.
\<close>

theorem generateTasks_batch:
  "length (generateTasks now rnd g) = 8
   \<and> map completed (generateTasks now rnd g) = replicate 8 False
   \<and> map amount (generateTasks now rnd g) = replicate 8 (Math_round (of_int g / 8))
   \<and> sorted (map time (generateTasks now rnd g))
   \<and> g - 8 \<le> sum_list (map amount (generateTasks now rnd g))
   \<and> sum_list (map amount (generateTasks now rnd g)) \<le> g + 8"
proof (intro conjI)
  show "length (generateTasks now rnd g) = 8"
    by (rule generateTasks_length)
  show "map completed (generateTasks now rnd g) = replicate 8 False"
    by (rule generateTasks_completed)
  show "map amount (generateTasks now rnd g) = replicate 8 (Math_round (of_int g / 8))"
    by (rule generateTasks_amount)
  show "sorted (map time (generateTasks now rnd g))"
    by (rule generateTasks_sorted)
  show "g - 8 \<le> sum_list (map amount (generateTasks now rnd g))"
    unfolding generateTasks_sum by linarith
  show "sum_list (map amount (generateTasks now rnd g)) \<le> g + 8"
    unfolding generateTasks_sum by linarith
qed

subsection \<open>Times\<close>

lemma div_mod_split:
  fixes q r c :: int
  assumes "0 \<le> r" "r < c"
  shows "(q * c + r) div c = q" and "(q * c + r) mod c = r"
  using assms by (simp_all add: div_pos_pos_trivial)

lemma time_components:
  assumes "0 \<le> h" "h < 24" "0 \<le> m" "m < 60" "0 \<le> s" "s < 60" "0 \<le> ms" "ms < 1000"
  shows "Day (MakeDate d (MakeTime h m s ms)) = d"
    and "HourFromTime (MakeDate d (MakeTime h m s ms)) = h"
    and "MinFromTime (MakeDate d (MakeTime h m s ms)) = m"
    and "SecFromTime (MakeDate d (MakeTime h m s ms)) = s"
    and "msFromTime (MakeDate d (MakeTime h m s ms)) = ms"
proof -
  let ?T = "d * 86400000 + (h * 3600000 + m * 60000 + s * 1000 + ms)"
  have T: "MakeDate d (MakeTime h m s ms) = ?T"
    by (simp add: MakeDate_def MakeTime_def msPerDay_def msPerHour_def msPerMinute_def
        msPerSecond_def)
  have "?T div 86400000 = d"
    using assms by (intro div_mod_split(1)) linarith+
  then show "Day (MakeDate d (MakeTime h m s ms)) = d"
    by (simp only: T Day_def msPerDay_def)
  have "?T = (d * 24 + h) * 3600000 + (m * 60000 + s * 1000 + ms)" by simp
  then have "?T div 3600000 = d * 24 + h"
    using assms div_mod_split(1) [of "m * 60000 + s * 1000 + ms" 3600000 "d * 24 + h"]
    by linarith
  moreover have "(d * 24 + h) mod 24 = h"
    using assms div_mod_split(2) [of h 24 d] by simp
  ultimately show "HourFromTime (MakeDate d (MakeTime h m s ms)) = h"
    by (simp only: T HourFromTime_def msPerHour_def)
  have "?T = ((d * 24 + h) * 60 + m) * 60000 + (s * 1000 + ms)" by simp
  then have "?T div 60000 = (d * 24 + h) * 60 + m"
    using assms div_mod_split(1) [of "s * 1000 + ms" 60000 "(d * 24 + h) * 60 + m"]
    by linarith
  moreover have "((d * 24 + h) * 60 + m) mod 60 = m"
    using assms div_mod_split(2) [of m 60 "d * 24 + h"] by simp
  ultimately show "MinFromTime (MakeDate d (MakeTime h m s ms)) = m"
    by (simp only: T MinFromTime_def msPerMinute_def)
  have E: "?T = (((d * 24 + h) * 60 + m) * 60 + s) * 1000 + ms" by simp
  have "?T div 1000 = ((d * 24 + h) * 60 + m) * 60 + s"
    using assms div_mod_split(1) [of ms 1000 "((d * 24 + h) * 60 + m) * 60 + s"]
    by (simp only: E)
  moreover have "(((d * 24 + h) * 60 + m) * 60 + s) mod 60 = s"
    using assms div_mod_split(2) [of s 60 "(d * 24 + h) * 60 + m"] by simp
  ultimately show "SecFromTime (MakeDate d (MakeTime h m s ms)) = s"
    by (simp only: T SecFromTime_def msPerSecond_def)
  have "?T mod 1000 = ms"
    using assms div_mod_split(2) [of ms 1000 "((d * 24 + h) * 60 + m) * 60 + s"]
    by (simp only: E)
  then show "msFromTime (MakeDate d (MakeTime h m s ms)) = ms"
    by (simp only: T msFromTime_def msPerSecond_def)
qed

lemma component_ranges:
  "0 \<le> MinFromTime t" "MinFromTime t < 60" "0 \<le> SecFromTime t" "SecFromTime t < 60"
  "0 \<le> msFromTime t" "msFromTime t < 1000"
  by (simp_all add: MinFromTime_def SecFromTime_def msFromTime_def msPerSecond_def)

lemma setMinutes_setHours:
  assumes "0 \<le> h" "h < 24"
  shows "setMinutes m (setHours h t) =
         MakeDate (Day t) (MakeTime h (ToInteger m) (SecFromTime t) (msFromTime t))"
  unfolding setMinutes_def setHours_def
  using assms by (simp add: time_components component_ranges)

text \<open>The binary64 product \<^verbatim>\<open>Math.random() * 59\<close> truncates to a minute from 0 to 59.\<close>

lemma ToInteger_random:
  assumes "0 \<le> r" "r < 1"
  shows "0 \<le> ToInteger (fl (r * 59))" and "ToInteger (fl (r * 59)) \<le> 59"
proof -
  have nn: "0 \<le> fl (r * 59)" using assms by (intro fl_nonneg) simp
  then show "0 \<le> ToInteger (fl (r * 59))" by (simp add: ToInteger_def)
  have "fl (r * 59) \<le> of_int 59"
  proof (cases "r = 0")
    case True
    then show ?thesis by (simp add: fl_zero)
  next
    case False
    then have "0 < r * 59" using assms by simp
    moreover have "r * 59 < pow2 53" using assms by (simp add: pow2_def)
    moreover have "r * 59 \<le> of_int 59" using assms by simp
    ultimately show ?thesis by (rule fl_le_int)
  qed
  then have "\<lfloor>fl (r * 59)\<rfloor> \<le> 59" by (simp add: floor_le_iff)
  then show "ToInteger (fl (r * 59)) \<le> 59" using nn by (simp add: ToInteger_def)
qed

text \<open>
  The rounding of the product is seen in the minute: for the binary64 number nearest to
  \<open>1 / 59\<close> the exact product is below 1 and the binary64 product is 1.
\<close>

lemma minute_of_rounded_product:
  "ToInteger (fl (4885260612740877 / 288230376151711744 * 59)) = 1
   \<and> ToInteger (4885260612740877 / 288230376151711744 * 59) = 0"
proof -
  have "fl (4885260612740877 / 288230376151711744 * 59) = 1"
    by code_simp
  then show ?thesis by (simp add: ToInteger_def floor_eq_iff)
qed

lemma task_time_made:
  assumes "0 \<le> h" "h < 24"
  shows "setMinutes (fl (r * 59)) (setHours h now) =
         Day now * 86400000 + h * 3600000 + ToInteger (fl (r * 59)) * 60000
           + SecFromTime now * 1000 + msFromTime now"
  unfolding setMinutes_setHours [OF assms] MakeDate_def MakeTime_def msPerDay_def msPerHour_def
      msPerMinute_def msPerSecond_def
  by simp

lemma task_hour:
  assumes "0 \<le> h" "h < 24" "0 \<le> r" "r < 1"
  shows "HourFromTime (setMinutes (fl (r * 59)) (setHours h now)) = h"
    and "MinFromTime (setMinutes (fl (r * 59)) (setHours h now)) = ToInteger (fl (r * 59))"
proof -
  have m: "0 \<le> ToInteger (fl (r * 59))" "ToInteger (fl (r * 59)) < 60"
    using assms ToInteger_random [of r] by simp_all
  show "HourFromTime (setMinutes (fl (r * 59)) (setHours h now)) = h"
    unfolding setMinutes_setHours [OF assms(1,2)]
    by (rule time_components(2) [OF assms(1,2) m component_ranges(3-6)])
  show "MinFromTime (setMinutes (fl (r * 59)) (setHours h now)) = ToInteger (fl (r * 59))"
    unfolding setMinutes_setHours [OF assms(1,2)]
    by (rule time_components(3) [OF assms(1,2) m component_ranges(3-6)])
qed

text \<open>A task one hour or more later in the hour component is later, whatever the minutes.\<close>

lemma task_time_le:
  assumes "0 \<le> r" "r < 1" "0 \<le> r'" "r' < 1" "0 \<le> h" "h + 1 \<le> h'" "h' < 24"
  shows "setMinutes (fl (r * 59)) (setHours h now) \<le> setMinutes (fl (r' * 59)) (setHours h' now)"
proof -
  have "ToInteger (fl (r * 59)) \<le> 59" "0 \<le> ToInteger (fl (r' * 59))"
    using assms ToInteger_random by simp_all
  moreover have "setMinutes (fl (r * 59)) (setHours h now) =
         Day now * 86400000 + h * 3600000 + ToInteger (fl (r * 59)) * 60000
           + SecFromTime now * 1000 + msFromTime now"
    using assms by (intro task_time_made) linarith+
  moreover have "setMinutes (fl (r' * 59)) (setHours h' now) =
         Day now * 86400000 + h' * 3600000 + ToInteger (fl (r' * 59)) * 60000
           + SecFromTime now * 1000 + msFromTime now"
    using assms by (intro task_time_made) linarith+
  ultimately show ?thesis using assms(6) by linarith
qed

lemma upt8: "[0 ..< 8] = [0, 1, 2, 3, 4, 5, 6, 7 :: nat]"
  by (simp add: upt_rec)

lemma hour_of_index:
  "map (\<lambda>i. 9 + Math_floor (of_nat i * (12 / of_nat tasksCount))) [0, 1, 2, 3, 4, 5, 6, 7]
   = [9, 10, 12, 13, 15, 16, 18, 19]"
  by (simp add: Math_floor_def tasksCount_def floor_eq_iff)

lemma pushed_times:
  "map time (pushedTasks now rnd g) =
     map (\<lambda>(h, i). setMinutes (fl (rnd i * 59)) (setHours h now))
       [(9, 0), (10, 1), (12, 2), (13, 3), (15, 4), (16, 5), (18, 6), (19, 7)]"
  using hour_of_index
  by (simp add: pushedTasks_def Let_def tasksCount_def upt8 newTask_sel)

lemma pushed_sorted:
  assumes "\<forall>i. 0 \<le> rnd i \<and> rnd i < 1"
  shows "sorted (map time (pushedTasks now rnd g))"
proof -
  have r: "0 \<le> rnd i" "rnd i < 1" for i
    using assms by simp_all
  show ?thesis
    unfolding pushed_times
    by (simp add: task_time_le r)
qed

text \<open>The pushed tasks are in ascending order already: sorting leaves them in place.\<close>

lemma generateTasks_pushed:
  assumes "\<forall>i. 0 \<le> rnd i \<and> rnd i < 1"
  shows "generateTasks now rnd g = pushedTasks now rnd g"
  using pushed_sorted [OF assms, of now g]
  by (simp add: generateTasks_def sort_key_id_if_sorted)

lemma task_ids:
  "map (\<lambda>i. ''task-'' @ string_of_nat i) [0, 1, 2, 3, 4, 5, 6, 7] =
     [''task-0'', ''task-1'', ''task-2'', ''task-3'', ''task-4'', ''task-5'', ''task-6'',
      ''task-7'']"
  by (simp add: digit_char_def string_of_nat.simps [of 0] string_of_nat.simps [of "Suc 0"]
      string_of_nat.simps [of 2] string_of_nat.simps [of 3] string_of_nat.simps [of 4]
      string_of_nat.simps [of 5] string_of_nat.simps [of 6] string_of_nat.simps [of 7])

text \<open>
  C7. For every goal, every clock and every choice of random values in \<open>[0, 1)\<close>, the task
  at position \<open>i\<close> of the batch is the task of index \<open>i\<close> and its hour is
  \<open>9 + floor (1.5 * i)\<close>: the hours are 9, 10, 12, 13, 15, 16, 18, 19 and the batch is in
  ascending order of time. The minute of a task is the random value times 59, a binary64
  product, truncated: it is not determined by the goal or the clock.
\<close>

theorem generateTasks_hours:
  assumes "\<forall>i. 0 \<le> rnd i \<and> rnd i < 1"
  shows "map (\<lambda>t. HourFromTime (time t)) (generateTasks now rnd g)
           = map (\<lambda>i. 9 + Math_floor (of_nat i * (3 / 2))) [0 ..< 8]
       \<and> map (\<lambda>t. HourFromTime (time t)) (generateTasks now rnd g)
           = [9, 10, 12, 13, 15, 16, 18, 19]
       \<and> map (\<lambda>t. MinFromTime (time t)) (generateTasks now rnd g)
           = map (\<lambda>i. ToInteger (fl (rnd i * 59))) [0 ..< 8]
       \<and> map task_id (generateTasks now rnd g)
           = [''task-0'', ''task-1'', ''task-2'', ''task-3'', ''task-4'', ''task-5'',
              ''task-6'', ''task-7'']
       \<and> sorted (map time (generateTasks now rnd g))"
proof -
  have r: "0 \<le> rnd i" "rnd i < 1" for i using assms by simp_all
  have t: "map (\<lambda>t. f (time t)) (pushedTasks now rnd g) =
     map (\<lambda>(h, i). f (setMinutes (fl (rnd i * 59)) (setHours h now)))
       [(9, 0), (10, 1), (12, 2), (13, 3), (15, 4), (16, 5), (18, 6), (19, 7)]" for f :: "int \<Rightarrow> int"
    using arg_cong [OF pushed_times [of now rnd g], of "map f"]
    by (simp add: comp_def)
  have h: "map (\<lambda>t. HourFromTime (time t)) (pushedTasks now rnd g)
           = [9, 10, 12, 13, 15, 16, 18, 19]"
    unfolding t by (simp add: task_hour r)
  have m: "map (\<lambda>t. MinFromTime (time t)) (pushedTasks now rnd g)
           = map (\<lambda>i. ToInteger (fl (rnd i * 59))) [0 ..< 8]"
    unfolding t upt8 by (simp add: task_hour r)
  have f: "map (\<lambda>i. 9 + Math_floor (of_nat i * (3 / 2))) [0 ..< 8]
           = [9, 10, 12, 13, 15, 16, 18, 19]"
    unfolding upt8 by (simp add: Math_floor_def floor_eq_iff)
  have i: "map task_id (pushedTasks now rnd g)
           = [''task-0'', ''task-1'', ''task-2'', ''task-3'', ''task-4'', ''task-5'',
              ''task-6'', ''task-7'']"
    using task_ids by (simp add: pushedTasks_def Let_def tasksCount_def upt8 newTask_sel)
  show ?thesis
    unfolding generateTasks_pushed [OF assms]
    by (intro conjI) (simp_all only: h m f i pushed_sorted [OF assms])
qed

theorem generateTasks_hours_witness:
  "(\<forall>i. (0::rat) \<le> (\<lambda>_. 1 / 2) i \<and> (\<lambda>_. 1 / 2 :: rat) i < 1)
   \<and> map (\<lambda>t. HourFromTime (time t)) (generateTasks 0 (\<lambda>_. 1 / 2) 2000)
       = [9, 10, 12, 13, 15, 16, 18, 19]
   \<and> map (\<lambda>t. MinFromTime (time t)) (generateTasks 0 (\<lambda>_. 1 / 2) 2000)
       = [29, 29, 29, 29, 29, 29, 29, 29]"
proof -
  have a: "\<forall>i. (0::rat) \<le> (\<lambda>_. 1 / 2) i \<and> (\<lambda>_. 1 / 2 :: rat) i < 1" by simp
  have "fl ((1 / 2) * 59) = 59 / 2" by code_simp
  then have "ToInteger (fl ((1 / 2) * 59)) = 29" by (simp add: ToInteger_def floor_eq_iff)
  then show ?thesis
    using a generateTasks_hours [OF a, of 0 2000, THEN conjunct2, THEN conjunct1]
      generateTasks_hours [OF a, of 0 2000, THEN conjunct2, THEN conjunct2, THEN conjunct1]
    unfolding upt8 by simp
qed

section \<open>Completing a task\<close>

text \<open>What \<open>markTasks\<close> returns, in closed form.\<close>

lemma markTasks_eq:
  "markTasks taskId tasks =
     (map (\<lambda>t. if task_id t = taskId then t\<lparr>completed := True\<rparr> else t) tasks,
      sum_list (map amount (filter (\<lambda>t. task_id t = taskId \<and> \<not> completed t) tasks)),
      map (\<lambda>t. TaskDone (amount t)) (filter (\<lambda>t. task_id t = taskId \<and> \<not> completed t) tasks))"
  by (induction tasks) (simp_all add: Let_def)

lemma mark_completed: "completed t \<Longrightarrow> t\<lparr>completed := True\<rparr> = t"
  by (cases t) simp

lemma markTasks_done:
  assumes "\<forall>t\<in>set tasks. task_id t = taskId \<longrightarrow> completed t"
  shows "markTasks taskId tasks = (tasks, 0, [])"
proof -
  have "filter (\<lambda>t. task_id t = taskId \<and> \<not> completed t) tasks = []"
    using assms by (simp add: filter_empty_conv)
  moreover have "map (\<lambda>t. if task_id t = taskId then t\<lparr>completed := True\<rparr> else t) tasks = tasks"
    using assms by (intro map_idI) (simp add: mark_completed)
  ultimately show ?thesis by (simp add: markTasks_eq)
qed

lemma markTasks_absent:
  assumes "taskId \<notin> task_id ` set tasks"
  shows "markTasks taskId tasks = (tasks, 0, [])"
  using assms by (intro markTasks_done) auto

lemma marked_all:
  "\<forall>t'\<in>set (map (\<lambda>t. if task_id t = taskId then t\<lparr>completed := True\<rparr> else t) tasks).
     task_id t' = taskId \<longrightarrow> completed t'"
proof (intro ballI impI)
  fix t'
  assume "t' \<in> set (map (\<lambda>t. if task_id t = taskId then t\<lparr>completed := True\<rparr> else t) tasks)"
    and i: "task_id t' = taskId"
  then obtain t where t: "t' = (if task_id t = taskId then t\<lparr>completed := True\<rparr> else t)"
    by (auto simp only: set_map)
  show "completed t'"
  proof (cases "task_id t = taskId")
    case True
    then show ?thesis using t by simp
  next
    case False
    then show ?thesis using t i by simp
  qed
qed

lemma markTasks_twice:
  "markTasks taskId (fst (markTasks taskId tasks)) = (fst (markTasks taskId tasks), 0, [])"
  using marked_all [of taskId tasks] by (intro markTasks_done) (simp only: markTasks_eq fst_conv)

lemma handleTaskCompletion_eq:
  "handleTaskCompletion taskId s =
     s\<lparr>waterTasks := fst (markTasks taskId (waterTasks s)),
       waterIntake := waterIntake s + fst (snd (markTasks taskId (waterTasks s))),
       toasts := toasts s @ snd (snd (markTasks taskId (waterTasks s)))\<rparr>"
  by (simp add: handleTaskCompletion_def split_beta)

lemma handleTaskCompletion_noop:
  assumes "markTasks taskId (waterTasks s) = (waterTasks s, 0, [])"
  shows "handleTaskCompletion taskId s = s"
  using assms by (simp add: handleTaskCompletion_eq)

lemma handleTaskCompletion_twice:
  "handleTaskCompletion taskId (handleTaskCompletion taskId s) = handleTaskCompletion taskId s"
  by (rule handleTaskCompletion_noop) (simp add: handleTaskCompletion_eq markTasks_twice)

lemma handleTaskCompletion_intake:
  "waterIntake (handleTaskCompletion taskId s)
     = waterIntake s
       + sum_list (map amount
           (filter (\<lambda>t. task_id t = taskId \<and> \<not> completed t) (waterTasks s)))"
  by (simp add: handleTaskCompletion_eq markTasks_eq)

lemma handleTaskCompletion_tasks:
  "waterTasks (handleTaskCompletion taskId s)
     = map (\<lambda>t. if task_id t = taskId then t\<lparr>completed := True\<rparr> else t) (waterTasks s)"
  by (simp add: handleTaskCompletion_eq markTasks_eq)

text \<open>
  C4. Completing a task is idempotent and safe on a missing identifier, for every batch,
  state and identifier. If no task of the batch has the identifier, the batch is unchanged
  and the amount added is 0, and the state is unchanged. If the tasks of the identifier
  are completed already, the batch is unchanged and the amount added is 0. Completing
  twice gives the state, and so the intake, of completing once. After completing, the
  tasks of the identifier are completed and the others are as before, and the amount
  added is the amount of the tasks of the identifier that were not completed.
\<close>

theorem completeTask_idempotent:
  "(taskId \<notin> task_id ` set tasks \<longrightarrow> markTasks taskId tasks = (tasks, 0, []))
   \<and> ((\<forall>t\<in>set tasks. task_id t = taskId \<longrightarrow> completed t)
        \<longrightarrow> markTasks taskId tasks = (tasks, 0, []))
   \<and> (taskId \<notin> task_id ` set (waterTasks s) \<longrightarrow> handleTaskCompletion taskId s = s)
   \<and> handleTaskCompletion taskId (handleTaskCompletion taskId s) = handleTaskCompletion taskId s
   \<and> waterIntake (handleTaskCompletion taskId (handleTaskCompletion taskId s))
       = waterIntake (handleTaskCompletion taskId s)
   \<and> waterTasks (handleTaskCompletion taskId s)
       = map (\<lambda>t. if task_id t = taskId then t\<lparr>completed := True\<rparr> else t) (waterTasks s)
   \<and> waterIntake (handleTaskCompletion taskId s)
       = waterIntake s
         + sum_list (map amount
             (filter (\<lambda>t. task_id t = taskId \<and> \<not> completed t) (waterTasks s)))"
proof (intro conjI impI)
  show "markTasks taskId tasks = (tasks, 0, [])" if "taskId \<notin> task_id ` set tasks"
    using that by (rule markTasks_absent)
  show "markTasks taskId tasks = (tasks, 0, [])"
    if "\<forall>t\<in>set tasks. task_id t = taskId \<longrightarrow> completed t"
    using that by (rule markTasks_done)
  show "handleTaskCompletion taskId s = s" if "taskId \<notin> task_id ` set (waterTasks s)"
    using that by (intro handleTaskCompletion_noop markTasks_absent)
  show "handleTaskCompletion taskId (handleTaskCompletion taskId s)
        = handleTaskCompletion taskId s"
    by (rule handleTaskCompletion_twice)
  show "waterIntake (handleTaskCompletion taskId (handleTaskCompletion taskId s))
        = waterIntake (handleTaskCompletion taskId s)"
    by (simp only: handleTaskCompletion_twice)
  show "waterTasks (handleTaskCompletion taskId s)
       = map (\<lambda>t. if task_id t = taskId then t\<lparr>completed := True\<rparr> else t) (waterTasks s)"
    by (rule handleTaskCompletion_tasks)
  show "waterIntake (handleTaskCompletion taskId s)
       = waterIntake s
         + sum_list (map amount
             (filter (\<lambda>t. task_id t = taskId \<and> \<not> completed t) (waterTasks s)))"
    by (rule handleTaskCompletion_intake)
qed

theorem completeTask_idempotent_witness:
  "markTasks ''task-9'' sample_batch = (sample_batch, 0, [])
   \<and> markTasks ''task-0'' sample_batch = (sample_batch, 0, [])
   \<and> waterIntake (handleTaskCompletion ''task-1'' (initial\<lparr>waterTasks := sample_batch\<rparr>)) = 250
   \<and> waterIntake (handleTaskCompletion ''task-1''
         (handleTaskCompletion ''task-1'' (initial\<lparr>waterTasks := sample_batch\<rparr>))) = 250
   \<and> map completed (waterTasks (handleTaskCompletion ''task-1''
         (initial\<lparr>waterTasks := sample_batch\<rparr>))) = [True, True]"
proof -
  let ?s = "initial\<lparr>waterTasks := sample_batch\<rparr>"
  have a: "''task-9'' \<notin> task_id ` set sample_batch"
    by (simp add: sample_batch_def)
  have b: "\<forall>t\<in>set sample_batch. task_id t = ''task-0'' \<longrightarrow> completed t"
    by (simp add: sample_batch_def)
  note c = completeTask_idempotent [of "''task-1''" sample_batch ?s]
  have "waterIntake (handleTaskCompletion ''task-1'' ?s) = 250"
    using c by (simp add: sample_batch_def initial_def)
  moreover have "map completed (waterTasks (handleTaskCompletion ''task-1'' ?s)) = [True, True]"
    using c by (simp add: sample_batch_def initial_def)
  ultimately show ?thesis
    using completeTask_idempotent [of "''task-9''" sample_batch ?s, THEN conjunct1, THEN mp, OF a]
      completeTask_idempotent [of "''task-0''" sample_batch ?s, THEN conjunct2, THEN conjunct1,
        THEN mp, OF b] c
    by simp
qed

section \<open>Submitting a chat line\<close>

text \<open>The string of a literal is empty only for the empty literal.\<close>

lemma js_empty [simp]: "js s = [] \<longleftrightarrow> s = []"
  by (simp add: js_def)

subsection \<open>The branches of the handler\<close>

lemma handleSendMessage_ignored:
  "trim (input s) = [] \<or> isLoading s \<Longrightarrow> handleSendMessage w s = s"
  by (simp add: handleSendMessage_def)

lemma handleSendMessage_location:
  assumes "trim (input s) \<noteq> []" "\<not> isLoading s" "matches_location (trim (input s))"
  shows "handleSendMessage w s =
     (case fetchWeather w (trim (input s))
             (s\<lparr>input := [], messages := messages s @ [UserMessage (trim (input s))]\<rparr>) of
        (None, s') \<Rightarrow> addBotMessage TryAnotherLocation s'
      | (Some weatherData, s') \<Rightarrow> s')"
  using assms by (simp add: handleSendMessage_def Let_def)

lemma handleSendMessage_volume:
  assumes "trim (input s) \<noteq> []" "\<not> isLoading s" "\<not> matches_location (trim (input s))"
    "matches_volume (trim (input s))"
  shows "handleSendMessage w s =
     s\<lparr>input := [],
       messages := messages s @
         [UserMessage (trim (input s)),
          BotMessage
            (if ge100 (times100 (number_div
                   (waterIntake s + logged_amount (trim (input s))) (dailyGoal s)))
             then GoalReached (dailyGoal s)
             else IntakeLogged (logged_amount (trim (input s)))
                    (waterIntake s + logged_amount (trim (input s)))
                    (Math_round_number (times100 (number_div
                       (waterIntake s + logged_amount (trim (input s))) (dailyGoal s)))))],
       waterIntake := waterIntake s + logged_amount (trim (input s))\<rparr>"
  using assms by (simp add: handleSendMessage_def Let_def addBotMessage_def)

lemma handleSendMessage_unrecognized:
  assumes "trim (input s) \<noteq> []" "\<not> isLoading s" "\<not> matches_location (trim (input s))"
    "\<not> matches_volume (trim (input s))"
  shows "handleSendMessage w s =
     s\<lparr>input := [], messages := messages s @ [UserMessage (trim (input s)), BotMessage Help]\<rparr>"
  using assms by (simp add: handleSendMessage_def Let_def addBotMessage_def)

subsection \<open>The fetch\<close>

lemma fetchWeather_AxiosError:
  assumes "reply w = AxiosError status"
  shows "fetchWeather w location s =
     (None,
      s\<lparr>isLoading := False,
        messages := messages s @
          [BotMessage (if status = Some 401 then ServiceTrouble
                       else if status = Some 404 then LocationNotFound else WeatherTrouble)],
        toasts := toasts s @
          [if status = Some 401 then InvalidApiKey
           else if status = Some 404 then LocationNotFoundToast else CouldNotFetch]\<rparr>)"
  using assms by (simp add: fetchWeather_def Let_def addBotMessage_def raise_toast_def)

lemma fetchWeather_OtherError:
  assumes "reply w = OtherError"
  shows "fetchWeather w location s = (None, s\<lparr>isLoading := False\<rparr>)"
  using assms by (simp add: fetchWeather_def Let_def)

lemma fetchWeather_Response:
  assumes "reply w = Response r"
  shows "fetchWeather w location s =
     (let weatherData = \<lparr>temp = Math_round (main_temp r), humidity = main_humidity r,
                           description = weather_description r\<rparr>
      in (Some weatherData,
          s\<lparr>isLoading := False, weather := Some weatherData, currentLocation := location,
            dailyGoal := computeGoal weatherData,
            waterTasks := generateTasks (clock w) (randoms w) (computeGoal weatherData),
            messages := messages s @
              [BotMessage (Recommendation (computeGoal weatherData)),
               BotMessage (WeatherReport location (temp weatherData) (humidity weatherData)
                 (description weatherData))]\<rparr>))"
  using assms
  by (simp add: fetchWeather_def Let_def addBotMessage_def calculateHydrationNeeds_def)

text \<open>
  C5. For every failure of the fetch (an axios error of status 401, of status 404, of any
  other or no status, or any other exception) the intake, the goal and the task batch
  after the failed fetch are those before it, and so are the weather and the location.
  The fetch returns no observation and ends the loading; a submission that ends in a
  failed fetch changes the state only by clearing the input and by appending chat messages
  and at most one notification.
\<close>

theorem fetch_failure_keeps_state:
  assumes "reply w = AxiosError status \<or> reply w = OtherError"
  shows "fst (fetchWeather w location s) = None
     \<and> waterIntake (snd (fetchWeather w location s)) = waterIntake s
     \<and> dailyGoal (snd (fetchWeather w location s)) = dailyGoal s
     \<and> waterTasks (snd (fetchWeather w location s)) = waterTasks s
     \<and> weather (snd (fetchWeather w location s)) = weather s
     \<and> currentLocation (snd (fetchWeather w location s)) = currentLocation s
     \<and> isLoading (snd (fetchWeather w location s)) = False
     \<and> (trim (input s) \<noteq> [] \<and> \<not> isLoading s \<and> matches_location (trim (input s)) \<longrightarrow>
          handleSendMessage w s =
            s\<lparr>input := [],
              messages := messages s @ UserMessage (trim (input s)) #
                (if reply w = OtherError then []
                 else if reply w = AxiosError (Some 401) then [BotMessage ServiceTrouble]
                 else if reply w = AxiosError (Some 404) then [BotMessage LocationNotFound]
                 else [BotMessage WeatherTrouble]) @ [BotMessage TryAnotherLocation],
              toasts := toasts s @
                (if reply w = OtherError then []
                 else if reply w = AxiosError (Some 401) then [InvalidApiKey]
                 else if reply w = AxiosError (Some 404) then [LocationNotFoundToast]
                 else [CouldNotFetch])\<rparr>)"
  using assms
proof (elim disjE)
  assume a: "reply w = AxiosError status"
  show ?thesis
    by (simp add: a fetchWeather_AxiosError [OF a] handleSendMessage_location
        addBotMessage_def)
next
  assume a: "reply w = OtherError"
  show ?thesis
    by (simp add: a fetchWeather_OtherError [OF a] handleSendMessage_location
        addBotMessage_def)
qed

theorem fetch_failure_keeps_state_witness:
  "reply (sample_world (AxiosError (Some 404))) = AxiosError (Some 404)
   \<and> fst (fetchWeather (sample_world (AxiosError (Some 404))) (js ''Paris'') initial) = None
   \<and> handleSendMessage (sample_world (AxiosError (Some 404))) (initial\<lparr>input := js '' Paris ''\<rparr>)
       = initial\<lparr>messages := [BotMessage Greeting, BotMessage AskLocation, UserMessage (js ''Paris''),
                     BotMessage LocationNotFound, BotMessage TryAnotherLocation],
                 toasts := [LocationNotFoundToast]\<rparr>"
proof -
  let ?w = "sample_world (AxiosError (Some 404))"
  have r: "reply ?w = AxiosError (Some 404) \<or> reply ?w = OtherError"
    by (simp add: sample_world_def)
  have t: "trim (js '' Paris '') = js ''Paris''"
    by (simp add: js_def trim_def is_space_def)
  have m: "matches_location (js ''Paris'')"
    by (simp add: js_def matches_location_def is_letter_def)
  show ?thesis
    using fetch_failure_keeps_state [OF r, of "js ''Paris''" initial]
      fetch_failure_keeps_state [OF r, of "js ''Paris''" "initial\<lparr>input := js '' Paris ''\<rparr>"] t m
    by (simp add: sample_world_def initial_def)
qed

section \<open>The classifier\<close>

subsection \<open>Character classes\<close>

lemma digit_not_space: "is_digit c \<Longrightarrow> \<not> is_space c"
  by (auto simp: is_digit_def is_space_def)

lemma digit_not_letter: "is_digit c \<Longrightarrow> \<not> is_letter c"
  by (auto simp: is_digit_def is_letter_def)

lemma unit_prefix_head:
  assumes "unit_prefix r"
  obtains c cs where "r = c # cs" "\<not> is_space c" "\<not> is_digit c"
proof (cases r)
  case Nil
  then show ?thesis using assms by (simp add: unit_prefix_def js_def)
next
  case (Cons c cs)
  then have "c = 109 \<or> c = 77"
    using assms by (cases cs) (auto simp: unit_prefix_def js_def)
  then have "\<not> is_space c" "\<not> is_digit c"
    by (auto simp: is_space_def is_digit_def)
  then show ?thesis using Cons that by blast
qed

subsection \<open>The volume pattern\<close>

lemma volume_at_nonempty: "volume_at s \<Longrightarrow> \<exists>c cs. s = c # cs \<and> is_digit c"
  by (cases s) (auto simp: volume_at_def split: if_splits)

lemma volume_at_matches: "volume_at s \<Longrightarrow> matches_volume s"
  using volume_at_nonempty [of s] by auto

lemma matches_volume_append: "matches_volume r \<Longrightarrow> matches_volume (pre @ r)"
  by (induction pre) simp_all

lemma matches_volume_digit: "matches_volume s \<Longrightarrow> \<exists>c\<in>set s. is_digit c"
proof (induction s)
  case Nil
  then show ?case by simp
next
  case (Cons c cs)
  then show ?case
    using volume_at_nonempty [of "c # cs"] by auto
qed

text \<open>
  The pattern in words: a non-empty run of digits, then white space only (possibly none),
  then one of the three spellings of the unit.
\<close>

lemma volume_at_decomposed:
  assumes "ds \<noteq> []" "list_all is_digit ds" "list_all is_space ws"
    and "u = js ''ml'' \<or> u = js ''ML'' \<or> u = js ''mL''"
  shows "volume_at (ds @ ws @ u @ post)"
proof -
  have u: "unit_prefix (u @ post)"
    using assms(4) by (auto simp: unit_prefix_def js_def)
  then obtain c cs where c: "u @ post = c # cs" "\<not> is_space c" "\<not> is_digit c"
    by (rule unit_prefix_head)
  have all: "\<forall>x\<in>set ds. is_digit x" "\<forall>x\<in>set ws. is_space x"
    using assms(2,3) by (simp_all add: list_all_iff)
  have nd: "takeWhile is_digit (ws @ u @ post) = []"
  proof (cases ws)
    case Nil
    then show ?thesis using c by simp
  next
    case (Cons x xs)
    then have "\<not> is_digit x" using all(2) digit_not_space by auto
    then show ?thesis using Cons by simp
  qed
  have "takeWhile is_digit (ds @ ws @ u @ post) = ds"
    using all(1) nd by (simp add: takeWhile_append2)
  moreover have "dropWhile is_digit (ds @ ws @ u @ post) = ws @ u @ post"
  proof -
    have "dropWhile is_digit (ws @ u @ post) = ws @ u @ post"
      using nd by (metis takeWhile_dropWhile_id append_Nil)
    then show ?thesis using all(1) by (simp add: dropWhile_append2)
  qed
  moreover have "dropWhile is_space (ws @ u @ post) = u @ post"
    using all(2) c by (simp add: dropWhile_append2)
  ultimately show ?thesis
    using assms(1) u by (simp add: volume_at_def)
qed

lemma matches_volume_decomposed:
  assumes "ds \<noteq> []" "list_all is_digit ds" "list_all is_space ws"
    and "u = js ''ml'' \<or> u = js ''ML'' \<or> u = js ''mL''"
  shows "matches_volume (pre @ ds @ ws @ u @ post)"
  by (intro matches_volume_append volume_at_matches volume_at_decomposed assms)

lemma volume_at_decompose:
  assumes "volume_at s"
  shows "\<exists>ds ws u post. s = ds @ ws @ u @ post \<and> ds \<noteq> [] \<and> list_all is_digit ds
           \<and> list_all is_space ws \<and> (u = js ''ml'' \<or> u = js ''ML'' \<or> u = js ''mL'')"
proof -
  define ds where "ds = takeWhile is_digit s"
  define r where "r = dropWhile is_digit s"
  define ws where "ws = takeWhile is_space r"
  define r' where "r' = dropWhile is_space r"
  have "s = ds @ r" "r = ws @ r'"
    by (simp_all add: ds_def r_def ws_def r'_def)
  moreover have "ds \<noteq> []" "unit_prefix r'"
    using assms by (simp_all add: volume_at_def ds_def r'_def r_def)
  moreover have "list_all is_digit ds" "list_all is_space ws"
    by (auto simp: ds_def ws_def list_all_iff dest: set_takeWhileD)
  moreover have "r' = take 2 r' @ drop 2 r'" by simp
  moreover have "take 2 r' = js ''ml'' \<or> take 2 r' = js ''ML'' \<or> take 2 r' = js ''mL''"
    using \<open>unit_prefix r'\<close> by (simp add: unit_prefix_def)
  ultimately show ?thesis by metis
qed

lemma matches_volume_iff:
  "matches_volume s \<longleftrightarrow>
     (\<exists>pre ds ws u post. s = pre @ ds @ ws @ u @ post \<and> ds \<noteq> [] \<and> list_all is_digit ds
        \<and> list_all is_space ws \<and> (u = js ''ml'' \<or> u = js ''ML'' \<or> u = js ''mL''))"
proof
  show "matches_volume s \<Longrightarrow>
     \<exists>pre ds ws u post. s = pre @ ds @ ws @ u @ post \<and> ds \<noteq> [] \<and> list_all is_digit ds
        \<and> list_all is_space ws \<and> (u = js ''ml'' \<or> u = js ''ML'' \<or> u = js ''mL'')"
  proof (induction s)
    case Nil
    then show ?case by simp
  next
    case (Cons c cs)
    show ?case
    proof (cases "volume_at (c # cs)")
      case True
      then obtain ds ws u post where "c # cs = [] @ ds @ ws @ u @ post" "ds \<noteq> []"
        "list_all is_digit ds" "list_all is_space ws" "u = js ''ml'' \<or> u = js ''ML'' \<or> u = js ''mL''"
        using volume_at_decompose [of "c # cs"] by force
      then show ?thesis by blast
    next
      case False
      then have "matches_volume cs" using Cons.prems by simp
      then obtain pre ds ws u post where "cs = pre @ ds @ ws @ u @ post" "ds \<noteq> []"
        "list_all is_digit ds" "list_all is_space ws" "u = js ''ml'' \<or> u = js ''ML'' \<or> u = js ''mL''"
        using Cons.IH by blast
      then have "c # cs = (c # pre) @ ds @ ws @ u @ post" by simp
      then show ?thesis
        using \<open>ds \<noteq> []\<close> \<open>list_all is_digit ds\<close> \<open>list_all is_space ws\<close>
          \<open>u = js ''ml'' \<or> u = js ''ML'' \<or> u = js ''mL''\<close> by blast
    qed
  qed
next
  show "\<exists>pre ds ws u post. s = pre @ ds @ ws @ u @ post \<and> ds \<noteq> [] \<and> list_all is_digit ds
        \<and> list_all is_space ws \<and> (u = js ''ml'' \<or> u = js ''ML'' \<or> u = js ''mL'') \<Longrightarrow> matches_volume s"
    using matches_volume_decomposed by blast
qed

subsection \<open>The first digit run\<close>

lemma match_digits_found:
  assumes "\<exists>c\<in>set s. is_digit c"
  shows "match_digits s = Some (takeWhile is_digit (dropWhile (\<lambda>c. \<not> is_digit c) s))"
    and "takeWhile is_digit (dropWhile (\<lambda>c. \<not> is_digit c) s) \<noteq> []"
proof -
  let ?r = "dropWhile (\<lambda>c. \<not> is_digit c) s"
  have ne: "?r \<noteq> []"
    using assms by (simp add: dropWhile_eq_Nil_conv)
  then have "is_digit (hd ?r)"
    using hd_dropWhile [of "\<lambda>c. \<not> is_digit c" s] by simp
  then show "takeWhile is_digit ?r \<noteq> []"
    using ne by (cases ?r) simp_all
  show "match_digits s = Some (takeWhile is_digit ?r)"
    using ne by (simp add: match_digits_def Let_def)
qed

lemma location_no_digit: "matches_location s \<Longrightarrow> \<forall>c\<in>set s. \<not> is_digit c"
  using digit_not_space digit_not_letter
  by (auto simp: matches_location_def list_all_iff)

lemma classify_volume_branch:
  assumes "matches_volume s"
  shows "classify s = VolumeLog (logged_amount s)"
proof -
  have "\<not> matches_location s"
    using matches_volume_digit [OF assms] location_no_digit [of s] by blast
  then show ?thesis using assms by (simp add: classify_def)
qed

subsection \<open>The amount\<close>


lemma digit_value_range: "is_digit c \<Longrightarrow> 0 \<le> digit_value c \<and> digit_value c \<le> 9"
  by (auto simp: is_digit_def digit_value_def)

lemma foldl_digits_bounds:
  "\<forall>c\<in>set xs. is_digit c \<Longrightarrow> 0 \<le> n
   \<Longrightarrow> 0 \<le> foldl (\<lambda>n c. 10 * n + digit_value c) n xs
     \<and> foldl (\<lambda>n c. 10 * n + digit_value c) n xs < (n + 1) * 10 ^ length xs"
proof (induction xs arbitrary: n)
  case Nil
  then show ?case by simp
next
  case (Cons x xs)
  have d: "0 \<le> digit_value x" "digit_value x \<le> 9"
    using Cons.prems(1) digit_value_range [of x] by simp_all
  have n: "0 \<le> 10 * n + digit_value x" using d Cons.prems(2) by simp
  have ih: "0 \<le> foldl (\<lambda>n c. 10 * n + digit_value c) (10 * n + digit_value x) xs"
    "foldl (\<lambda>n c. 10 * n + digit_value c) (10 * n + digit_value x) xs
       < (10 * n + digit_value x + 1) * 10 ^ length xs"
    using Cons.IH [OF _ n] Cons.prems(1) by simp_all
  have le: "(10 * n + digit_value x + 1) * 10 ^ length xs \<le> (10 * (n + 1)) * 10 ^ length xs"
    using d by (intro mult_right_mono) simp_all
  have e: "(10 * (n + 1)) * 10 ^ length xs = (n + 1) * 10 ^ length (x # xs)"
    by simp
  have "foldl (\<lambda>n c. 10 * n + digit_value c) (10 * n + digit_value x) xs
       < (n + 1) * 10 ^ length (x # xs)"
    using ih(2) le unfolding e by (rule less_le_trans)
  then show ?case using ih(1) by simp
qed

lemma digits_value_bounds:
  "0 \<le> digits_value s" "digits_value s < 10 ^ length (takeWhile is_digit s)"
  using foldl_digits_bounds [of "takeWhile is_digit s" 0]
  by (auto simp: digits_value_def dest: set_takeWhileD)

text \<open>A run of at most 15 digits denotes an integer below \<open>2 ^ 53\<close>, which \<^verbatim>\<open>parseInt\<close> returns.\<close>

lemma digits_value_small:
  assumes "length (takeWhile is_digit s) \<le> 15"
  shows "digits_value s < 2 ^ 53"
proof -
  have "(10 :: int) ^ length (takeWhile is_digit s) \<le> 10 ^ 15"
    using assms by (intro power_increasing) simp_all
  then show ?thesis using digits_value_bounds(2) [of s] by simp
qed

lemma parseInt_exact:
  assumes "digits_value s < 2 ^ 53"
  shows "parseInt s = digits_value s"
  using fl_int_exact [OF digits_value_bounds(1) assms] by (simp add: parseInt_def)

lemma parseInt_nonneg: "0 \<le> parseInt s"
proof -
  have "(0 :: rat) \<le> of_int (digits_value s)"
    using digits_value_bounds(1) [of s] by simp
  then have "0 \<le> fl (of_int (digits_value s))" by (rule fl_nonneg)
  then show ?thesis by (simp add: parseInt_def)
qed

lemma logged_amount_nonneg: "0 \<le> logged_amount s"
  by (simp add: logged_amount_def parseInt_nonneg)

lemma logged_amount_first_run:
  assumes "\<exists>c\<in>set s. is_digit c"
  shows "logged_amount s = parseInt (takeWhile is_digit (dropWhile (\<lambda>c. \<not> is_digit c) s))"
  using match_digits_found [OF assms] by (simp add: logged_amount_def)

lemma logged_amount_exact:
  assumes "\<exists>c\<in>set s. is_digit c"
    and "length (takeWhile is_digit (dropWhile (\<lambda>c. \<not> is_digit c) s)) \<le> 15"
  shows "logged_amount s = digits_value (takeWhile is_digit (dropWhile (\<lambda>c. \<not> is_digit c) s))"
proof -
  have "length (takeWhile is_digit (takeWhile is_digit (dropWhile (\<lambda>c. \<not> is_digit c) s))) \<le> 15"
    using assms(2) by simp
  then have "digits_value (takeWhile is_digit (dropWhile (\<lambda>c. \<not> is_digit c) s)) < 2 ^ 53"
    by (rule digits_value_small)
  then show ?thesis
    using logged_amount_first_run [OF assms(1)] by (simp add: parseInt_exact)
qed






text \<open>
  C10, as the code has it. For every line that the volume pattern matches, the search for
  a digit run finds one: the leftmost run of the line, not empty, so that the default \<open>0\<close>
  for a line with no digit run is never used. If this run has at most 15 digits, the
  amount logged is the integer that it denotes.
\<close>

theorem volume_amount_has_digits:
  assumes "matches_volume userMessage"
  shows "match_digits userMessage
           = Some (takeWhile is_digit (dropWhile (\<lambda>c. \<not> is_digit c) userMessage))
     \<and> takeWhile is_digit (dropWhile (\<lambda>c. \<not> is_digit c) userMessage) \<noteq> []
     \<and> list_all is_digit (takeWhile is_digit (dropWhile (\<lambda>c. \<not> is_digit c) userMessage))
     \<and> (length (takeWhile is_digit (dropWhile (\<lambda>c. \<not> is_digit c) userMessage)) \<le> 15 \<longrightarrow>
          logged_amount userMessage
            = digits_value (takeWhile is_digit (dropWhile (\<lambda>c. \<not> is_digit c) userMessage))
          \<and> classify userMessage
            = VolumeLog (digits_value
                (takeWhile is_digit (dropWhile (\<lambda>c. \<not> is_digit c) userMessage))))"
proof -
  have d: "\<exists>c\<in>set userMessage. is_digit c"
    using assms by (rule matches_volume_digit)
  have "list_all is_digit (takeWhile is_digit (dropWhile (\<lambda>c. \<not> is_digit c) userMessage))"
    by (auto simp: list_all_iff dest: set_takeWhileD)
  then show ?thesis
    using match_digits_found [OF d] logged_amount_exact [OF d]
      classify_volume_branch [OF assms]
    by simp
qed

theorem volume_amount_has_digits_witness:
  "matches_volume (js ''drink 250 ml now'')
   \<and> match_digits (js ''drink 250 ml now'') = Some (js ''250'')
   \<and> length (js ''250'') \<le> 15
   \<and> logged_amount (js ''drink 250 ml now'') = 250"
proof -
  have m: "matches_volume (js ''drink 250 ml now'')"
    by (simp add: js_def volume_at_def unit_prefix_def is_digit_def is_space_def)
  have r: "takeWhile is_digit (dropWhile (\<lambda>c. \<not> is_digit c) (js ''drink 250 ml now''))
      = js ''250''"
    by (simp add: js_def is_digit_def)
  have v: "digits_value (js ''250'') = 250" "length (js ''250'') \<le> 15"
    by (simp_all add: js_def is_digit_def digits_value_def digit_value_def)
  show ?thesis
    using m volume_amount_has_digits [OF m] by (simp add: r v)
qed

text \<open>
  C10, as stated, fails: the line \<open>9007199254740993ml\<close> is a volume log whose first digit
  run denotes \<open>2 ^ 53 + 1\<close>, and the amount logged is \<open>2 ^ 53\<close>, the binary64 number that
  \<^verbatim>\<open>parseInt\<close> returns for it.
\<close>

theorem volume_amount_counterexample:
  "matches_volume (js ''9007199254740993ml'')
   \<and> match_digits (js ''9007199254740993ml'') = Some (js ''9007199254740993'')
   \<and> digits_value (js ''9007199254740993'') = 9007199254740993
   \<and> logged_amount (js ''9007199254740993ml'') = 9007199254740992"
proof -
  have m: "matches_volume (js ''9007199254740993ml'')"
    by (simp add: js_def volume_at_def unit_prefix_def is_digit_def is_space_def)
  have r: "match_digits (js ''9007199254740993ml'') = Some (js ''9007199254740993'')"
    by (simp add: js_def match_digits_def is_digit_def)
  have v: "digits_value (js ''9007199254740993'') = 9007199254740993"
    by (simp add: js_def is_digit_def digits_value_def digit_value_def)
  have f: "\<lfloor>fl 9007199254740993\<rfloor> = 9007199254740992"
    by code_simp
  have n: "js ''9007199254740993'' \<noteq> []" by (simp add: js_def)
  have "logged_amount (js ''9007199254740993ml'') = 9007199254740992"
    using f n by (simp add: logged_amount_def r parseInt_def v)
  then show ?thesis using m r v by simp
qed

section \<open>Sessions\<close>

subsection \<open>What a submission does, by the class of the line\<close>

lemma classify_location: "matches_location s \<Longrightarrow> classify s = Location s"
  by (simp add: classify_def)

lemma classify_unrecognized:
  "\<not> matches_location s \<Longrightarrow> \<not> matches_volume s \<Longrightarrow> classify s = Unrecognized"
  by (simp add: classify_def)

text \<open>
  C8, as the code has it. For every state and every line in the input field. If the
  trimmed line is empty (or a fetch is loading) the submission returns the state as it
  is: nothing changes and no message is appended. Otherwise the trimmed line is appended
  as the user's message and the input is cleared, and: if the line has only letters \<open>a\<close>
  to \<open>z\<close>, \<open>A\<close> to \<open>Z\<close> and white space, it is a location and the result is that of the
  weather fetch for this line; if it matches neither pattern, it is unrecognized, the
  help message is the only reply and nothing else changes.
\<close>

theorem handleSendMessage_by_class:
  "(trim (input s) = [] \<or> isLoading s \<longrightarrow> handleSendMessage w s = s)
   \<and> (trim (input s) \<noteq> [] \<and> \<not> isLoading s
        \<and> list_all (\<lambda>c. is_letter c \<or> is_space c) (trim (input s)) \<longrightarrow>
          classify (trim (input s)) = Location (trim (input s))
          \<and> handleSendMessage w s =
              (case fetchWeather w (trim (input s))
                      (s\<lparr>input := [],
                         messages := messages s @ [UserMessage (trim (input s))]\<rparr>) of
                 (None, s') \<Rightarrow> addBotMessage TryAnotherLocation s'
               | (Some weatherData, s') \<Rightarrow> s'))
   \<and> (trim (input s) \<noteq> [] \<and> \<not> isLoading s
        \<and> \<not> matches_location (trim (input s)) \<and> \<not> matches_volume (trim (input s)) \<longrightarrow>
          classify (trim (input s)) = Unrecognized
          \<and> handleSendMessage w s =
              s\<lparr>input := [],
                messages := messages s @ [UserMessage (trim (input s)), BotMessage Help]\<rparr>)"
proof (intro conjI impI)
  show "handleSendMessage w s = s" if "trim (input s) = [] \<or> isLoading s"
    using that by (rule handleSendMessage_ignored)
next
  assume a: "trim (input s) \<noteq> [] \<and> \<not> isLoading s
        \<and> list_all (\<lambda>c. is_letter c \<or> is_space c) (trim (input s))"
  then have m: "matches_location (trim (input s))"
    by (simp add: matches_location_def)
  show "classify (trim (input s)) = Location (trim (input s))"
    using m by (rule classify_location)
  show "handleSendMessage w s =
              (case fetchWeather w (trim (input s))
                      (s\<lparr>input := [],
                         messages := messages s @ [UserMessage (trim (input s))]\<rparr>) of
                 (None, s') \<Rightarrow> addBotMessage TryAnotherLocation s'
               | (Some weatherData, s') \<Rightarrow> s')"
    using a m by (intro handleSendMessage_location) simp_all
next
  assume a: "trim (input s) \<noteq> [] \<and> \<not> isLoading s
        \<and> \<not> matches_location (trim (input s)) \<and> \<not> matches_volume (trim (input s))"
  show "classify (trim (input s)) = Unrecognized"
    using a by (intro classify_unrecognized) simp_all
  show "handleSendMessage w s =
      s\<lparr>input := [], messages := messages s @ [UserMessage (trim (input s)), BotMessage Help]\<rparr>"
    using a by (intro handleSendMessage_unrecognized) simp_all
qed

theorem handleSendMessage_by_class_witness:
  "handleSendMessage (sample_world OtherError) (initial\<lparr>input := js ''   ''\<rparr>)
     = initial\<lparr>input := js ''   ''\<rparr>
   \<and> classify (js ''New York'') = Location (js ''New York'')
   \<and> weather (handleSendMessage (sample_world (Response sample_response))
        (initial\<lparr>input := js ''New York ''\<rparr>))
       = Some \<lparr>temp = 30, humidity = 70, description = js ''clear sky''\<rparr>
   \<and> classify (js ''250'') = Unrecognized
   \<and> handleSendMessage (sample_world OtherError) (initial\<lparr>input := js '' 250''\<rparr>)
       = initial\<lparr>messages := [BotMessage Greeting, BotMessage AskLocation, UserMessage (js ''250''),
                     BotMessage Help]\<rparr>"
proof -
  have t: "trim (js ''   '') = []" "trim (js ''New York '') = js ''New York''" "trim (js '' 250'') = js ''250''"
    by (simp_all add: js_def trim_def is_space_def)
  have l: "list_all (\<lambda>c. is_letter c \<or> is_space c) (js ''New York'')"
    by (simp add: js_def is_letter_def is_space_def)
  have n: "\<not> matches_location (js ''250'')" "\<not> matches_volume (js ''250'')"
    by (simp_all add: js_def matches_location_def is_letter_def is_space_def volume_at_def
        unit_prefix_def is_digit_def)
  have r: "reply (sample_world (Response sample_response)) = Response sample_response"
    by (simp add: sample_world_def)
  have i: "\<not> isLoading initial" "input (initial\<lparr>input := x\<rparr>) = x" for x
    by (simp_all add: initial_def)
  have 1: "handleSendMessage (sample_world OtherError) (initial\<lparr>input := js ''   ''\<rparr>)
     = initial\<lparr>input := js ''   ''\<rparr>"
    using handleSendMessage_by_class
      [of "initial\<lparr>input := js ''   ''\<rparr>" "sample_world OtherError"] t
    by (simp add: i)
  have p: "trim (input (initial\<lparr>input := js ''New York ''\<rparr>)) \<noteq> []
      \<and> \<not> isLoading (initial\<lparr>input := js ''New York ''\<rparr>)
      \<and> list_all (\<lambda>c. is_letter c \<or> is_space c) (trim (input (initial\<lparr>input := js ''New York ''\<rparr>)))"
    using l by (simp add: i t initial_def)
  note c = handleSendMessage_by_class
      [of "initial\<lparr>input := js ''New York ''\<rparr>" "sample_world (Response sample_response)",
        THEN conjunct2, THEN conjunct1, THEN mp, OF p]
  have "weather (handleSendMessage (sample_world (Response sample_response))
        (initial\<lparr>input := js ''New York ''\<rparr>))
       = Some \<lparr>temp = 30, humidity = 70, description = js ''clear sky''\<rparr>"
    unfolding c [THEN conjunct2] fetchWeather_Response [OF r]
    by (simp add: Let_def sample_response_def Math_round_of_int [of 30, simplified])
  then have 2: "classify (js ''New York'') = Location (js ''New York'')
    \<and> weather (handleSendMessage (sample_world (Response sample_response))
        (initial\<lparr>input := js ''New York ''\<rparr>))
       = Some \<lparr>temp = 30, humidity = 70, description = js ''clear sky''\<rparr>"
    using c [THEN conjunct1] by (simp add: i t)
  have 3: "classify (js ''250'') = Unrecognized
   \<and> handleSendMessage (sample_world OtherError) (initial\<lparr>input := js '' 250''\<rparr>)
       = initial\<lparr>messages := [BotMessage Greeting, BotMessage AskLocation, UserMessage (js ''250''),
                     BotMessage Help]\<rparr>"
    using handleSendMessage_by_class
      [of "initial\<lparr>input := js '' 250''\<rparr>" "sample_world OtherError"] t n
    by (simp add: i initial_def)
  show ?thesis using 1 2 3 by simp
qed

text \<open>
  C8, as stated, fails for a letter outside \<open>a\<close> to \<open>z\<close> and \<open>A\<close> to \<open>Z\<close>: the line
  \<^verbatim>\<open>Z\u00FCrich\<close> (the code units of \<open>Z\<close>, 252 and those of \<open>rich\<close>) consists of letters only, is
  trimmed and not empty, and is not a location but unrecognized: submitted in the initial
  state it is answered with the help message and no weather is fetched.
\<close>

theorem handleSendMessage_by_class_counterexample:
  "trim (js ''Z'' @ [252] @ js ''rich'') = js ''Z'' @ [252] @ js ''rich''
   \<and> \<not> matches_location (js ''Z'' @ [252] @ js ''rich'')
   \<and> classify (js ''Z'' @ [252] @ js ''rich'') = Unrecognized
   \<and> handleSendMessage (sample_world (Response sample_response))
         (initial\<lparr>input := js ''Z'' @ [252] @ js ''rich''\<rparr>)
       = initial\<lparr>messages := [BotMessage Greeting, BotMessage AskLocation,
                     UserMessage (js ''Z'' @ [252] @ js ''rich''), BotMessage Help]\<rparr>"
proof -
  have z: "js ''Z'' @ [252] @ js ''rich'' = [90, 252, 114, 105, 99, 104]"
    by (simp add: js_def)
  have t: "trim [90, 252, 114, 105, 99, 104] = [90, 252, 114, 105, 99, 104]"
    by (simp add: trim_def is_space_def)
  have n: "\<not> matches_location [90, 252, 114, 105, 99, 104]"
    "\<not> matches_volume [90, 252, 114, 105, 99, 104]"
    by (simp_all add: matches_location_def is_letter_def is_space_def volume_at_def
        unit_prefix_def is_digit_def)
  have c: "classify [90, 252, 114, 105, 99, 104] = Unrecognized"
    using n by (simp add: classify_def)
  have h: "handleSendMessage (sample_world (Response sample_response))
         (initial\<lparr>input := [90, 252, 114, 105, 99, 104]\<rparr>)
       = initial\<lparr>messages := [BotMessage Greeting, BotMessage AskLocation,
                     UserMessage [90, 252, 114, 105, 99, 104], BotMessage Help]\<rparr>"
    using t n by (subst handleSendMessage_unrecognized) (simp_all add: initial_def)
  show ?thesis unfolding z using t n(1) c h by simp
qed

subsection \<open>The intake never decreases\<close>

lemma handleTaskCompletion_mono:
  assumes "amounts_nonneg s"
  shows "waterIntake s \<le> waterIntake (handleTaskCompletion taskId s)"
proof -
  have "0 \<le> sum_list (map amount
      (filter (\<lambda>t. task_id t = taskId \<and> \<not> completed t) (waterTasks s)))"
    using assms by (intro sum_list_nonneg) (auto simp: amounts_nonneg_def list_all_iff)
  then show ?thesis by (simp add: handleTaskCompletion_intake)
qed

lemma handleTaskCompletion_nonneg:
  assumes "amounts_nonneg s"
  shows "amounts_nonneg (handleTaskCompletion taskId s)"
  using assms
  by (auto simp: amounts_nonneg_def list_all_iff handleTaskCompletion_tasks)

lemma generateTasks_nonneg:
  assumes "0 \<le> g"
  shows "list_all (\<lambda>t. 0 \<le> amount t) (generateTasks now rnd g)"
proof -
  have "0 \<le> (g + 4) div 8" using assms by simp
  then show ?thesis
    by (simp add: list_all_iff generateTasks_set newTask_sel Math_round_div8)
qed

lemma fetchWeather_intake:
  "waterIntake (snd (fetchWeather w location s)) = waterIntake s"
proof (cases "reply w")
  case (Response r)
  then show ?thesis by (simp add: fetchWeather_Response Let_def)
next
  case (AxiosError status)
  then show ?thesis by (simp add: fetchWeather_AxiosError)
next
  case OtherError
  then show ?thesis by (simp add: fetchWeather_OtherError)
qed

lemma fetchWeather_nonneg:
  assumes "amounts_nonneg s"
  shows "amounts_nonneg (snd (fetchWeather w location s))"
proof (cases "reply w")
  case (Response r)
  have "0 \<le> computeGoal x" for x
    using computeGoal_ge [of x] by simp
  then show ?thesis
    by (simp add: fetchWeather_Response [OF Response] Let_def amounts_nonneg_def
        generateTasks_nonneg)
next
  case (AxiosError status)
  then show ?thesis using assms by (simp add: fetchWeather_AxiosError amounts_nonneg_def)
next
  case OtherError
  then show ?thesis using assms by (simp add: fetchWeather_OtherError amounts_nonneg_def)
qed

lemma after_fetch:
  "waterIntake (case p of (None, s') \<Rightarrow> addBotMessage TryAnotherLocation s'
                | (Some weatherData, s') \<Rightarrow> s') = waterIntake (snd p)"
  "waterTasks (case p of (None, s') \<Rightarrow> addBotMessage TryAnotherLocation s'
                | (Some weatherData, s') \<Rightarrow> s') = waterTasks (snd p)"
  by (simp_all add: addBotMessage_def split: prod.splits option.splits)

lemma handleSendMessage_mono:
  "waterIntake s \<le> waterIntake (handleSendMessage w s)"
proof -
  consider "trim (input s) = [] \<or> isLoading s"
    | "trim (input s) \<noteq> []" "\<not> isLoading s" "matches_location (trim (input s))"
    | "trim (input s) \<noteq> []" "\<not> isLoading s" "\<not> matches_location (trim (input s))"
      "matches_volume (trim (input s))"
    | "trim (input s) \<noteq> []" "\<not> isLoading s" "\<not> matches_location (trim (input s))"
      "\<not> matches_volume (trim (input s))"
    by blast
  then show ?thesis
  proof cases
    case 1
    then show ?thesis by (simp add: handleSendMessage_ignored)
  next
    case 2
    then show ?thesis
      by (simp add: handleSendMessage_location after_fetch fetchWeather_intake)
  next
    case 3
    then show ?thesis
      using logged_amount_nonneg [of "trim (input s)"]
      by (simp add: handleSendMessage_volume)
  next
    case 4
    then show ?thesis by (simp add: handleSendMessage_unrecognized)
  qed
qed

lemma handleSendMessage_nonneg:
  assumes "amounts_nonneg s"
  shows "amounts_nonneg (handleSendMessage w s)"
proof -
  consider "trim (input s) = [] \<or> isLoading s"
    | "trim (input s) \<noteq> []" "\<not> isLoading s" "matches_location (trim (input s))"
    | "trim (input s) \<noteq> []" "\<not> isLoading s" "\<not> matches_location (trim (input s))"
      "matches_volume (trim (input s))"
    | "trim (input s) \<noteq> []" "\<not> isLoading s" "\<not> matches_location (trim (input s))"
      "\<not> matches_volume (trim (input s))"
    by blast
  then show ?thesis
  proof cases
    case 1
    then show ?thesis using assms by (simp add: handleSendMessage_ignored)
  next
    case 2
    have "amounts_nonneg (s\<lparr>input := [], messages := messages s @ [UserMessage (trim (input s))]\<rparr>)"
      using assms by (simp add: amounts_nonneg_def)
    then have "amounts_nonneg (snd (fetchWeather w (trim (input s))
        (s\<lparr>input := [], messages := messages s @ [UserMessage (trim (input s))]\<rparr>)))"
      by (rule fetchWeather_nonneg)
    then show ?thesis
      using 2 by (simp add: handleSendMessage_location amounts_nonneg_def after_fetch)
  next
    case 3
    then show ?thesis
      using assms by (simp add: handleSendMessage_volume amounts_nonneg_def)
  next
    case 4
    then show ?thesis
      using assms by (simp add: handleSendMessage_unrecognized amounts_nonneg_def)
  qed
qed

lemma step_mono: "amounts_nonneg s \<Longrightarrow> waterIntake s \<le> waterIntake (step e s)"
  by (cases e) (simp_all add: handleSendMessage_mono handleTaskCompletion_mono)

lemma step_nonneg: "amounts_nonneg s \<Longrightarrow> amounts_nonneg (step e s)"
  by (cases e)
    (simp_all add: handleSendMessage_nonneg handleTaskCompletion_nonneg,
      simp add: amounts_nonneg_def)

lemma run_append: "run (es @ es') s = run es' (run es s)"
  by (induction es arbitrary: s) simp_all

lemma run_nonneg: "amounts_nonneg s \<Longrightarrow> amounts_nonneg (run es s)"
  by (induction es arbitrary: s) (simp_all add: step_nonneg)

lemma run_mono: "amounts_nonneg s \<Longrightarrow> waterIntake s \<le> waterIntake (run es s)"
proof (induction es arbitrary: s)
  case Nil
  then show ?case by simp
next
  case (Cons e es)
  have "waterIntake s \<le> waterIntake (step e s)"
    using Cons.prems by (rule step_mono)
  also have "\<dots> \<le> waterIntake (run es (step e s))"
    using Cons.prems by (intro Cons.IH step_nonneg)
  finally show ?case by simp
qed

lemma initial_nonneg: "amounts_nonneg initial"
  by (simp add: amounts_nonneg_def initial_def)

text \<open>
  C9. In every session, that is after every sequence of events from the initial state
  (typing, submissions with any outcome of the fetch, presses of task buttons), every
  further event leaves the intake at least as large as it was, and so does every further
  sequence of events; the intake starts at 0 and is never negative.
\<close>

theorem waterIntake_monotone:
  "waterIntake (run es initial) \<le> waterIntake (step e (run es initial))
   \<and> waterIntake (run es initial) \<le> waterIntake (run (es @ es') initial)
   \<and> 0 \<le> waterIntake (run es initial)"
proof (intro conjI)
  have i: "amounts_nonneg (run es initial)"
    by (intro run_nonneg initial_nonneg)
  show "waterIntake (run es initial) \<le> waterIntake (step e (run es initial))"
    using i by (rule step_mono)
  show "waterIntake (run es initial) \<le> waterIntake (run (es @ es') initial)"
    unfolding run_append using i by (rule run_mono)
  show "0 \<le> waterIntake (run es initial)"
    using run_mono [OF initial_nonneg, of es] by (simp add: initial_def)
qed

section \<open>The progress percentage\<close>

subsection \<open>The error of the computed progress\<close>




lemma progress_error_zero:
  "fl (fl (of_int 0 / of_int g) * 100) = 0"
  by (simp add: fl_zero)




subsection \<open>Logging a volume\<close>












end
